theory Spec2Isabelle
  imports Complex_Main "HOL-Library.Word"
begin

section \<open>The Oxide plugin editor: parameter bridge, resource provider, visualizer feed\<close>

text \<open>
  A shallow embedding of \<^verbatim>\<open>Source/PluginEditor.h\<close> and \<^verbatim>\<open>Source/PluginEditor.cpp\<close>.
  The editor is a record of its members; every member function is a function on that record.
  A dereference of a null pointer is the error value \<open>NullPointerDereference\<close>.
  The GUI framework, the processor and the activation client are not part of the sources;
  what the editor uses of them is modelled next to the place where it is used.
\<close>

subsection \<open>Strings\<close>

text \<open>
  The three string operations the resource provider uses. \<open>substring1\<close> is
  \<^verbatim>\<open>substring(1)\<close>: the string without its first character.
\<close>

definition startsWith :: "string \<Rightarrow> string \<Rightarrow> bool" where
  "startsWith s t = (take (length t) s = t)"

definition endsWith :: "string \<Rightarrow> string \<Rightarrow> bool" where
  "endsWith s t = (length t \<le> length s \<and> drop (length s - length t) s = t)"

definition substring1 :: "string \<Rightarrow> string" where
  "substring1 s = drop 1 s"

subsection \<open>Files\<close>

text \<open>
  The file system is outside the editor. A file is named by its full path; the operations
  of \<^verbatim>\<open>juce::File\<close> that the editor calls are the fields of the record, so that nothing
  is assumed about how paths are joined or which files exist.
  \<open>loadFileAsData\<close> is the content of the memory block after the call (the call's
  result is ignored by the editor).
\<close>

type_synonym File = string

type_synonym byte = "8 word"

record FileSystem =
  currentExecutableFile :: File
  getParentDirectory :: "File \<Rightarrow> File"
  getChildFile :: "File \<Rightarrow> string \<Rightarrow> File"
  isDirectory :: "File \<Rightarrow> bool"
  existsAsFile :: "File \<Rightarrow> bool"
  loadFileAsData :: "File \<Rightarrow> byte list"

record Resource =
  data :: "byte list"
  mimeType :: string

subsection \<open>The resource provider\<close>

text \<open>
  The lambda given to \<^verbatim>\<open>withResourceProvider\<close> (PluginEditor.cpp, lines 94 to 121), in
  three parts: \<open>requestPath\<close> is the value of the local variable \<^verbatim>\<open>path\<close> after lines
  96 to 98, \<open>inferMimeType\<close> is the value of \<^verbatim>\<open>mimeType\<close> after lines 103 to 110, and
  \<open>resourceProvider\<close> is the whole lambda; \<open>None\<close> is \<^verbatim>\<open>std::nullopt\<close>.
\<close>

definition requestPath :: "string \<Rightarrow> string" where
  "requestPath url =
     (let path = url;
          path = (if startsWith path ''/'' then substring1 path else path);
          path = (if path = [] then ''index.html'' else path)
      in path)"

definition inferMimeType :: "string \<Rightarrow> string" where
  "inferMimeType path =
     (if endsWith path ''.html'' then ''text/html''
      else if endsWith path ''.css'' then ''text/css''
      else if endsWith path ''.js'' then ''application/javascript''
      else if endsWith path ''.json'' then ''application/json''
      else if endsWith path ''.png'' then ''image/png''
      else if endsWith path ''.svg'' then ''image/svg+xml''
      else if endsWith path ''.woff2'' then ''font/woff2''
      else ''application/octet-stream'')"

definition resourceProvider :: "FileSystem \<Rightarrow> File \<Rightarrow> string \<Rightarrow> Resource option" where
  "resourceProvider fs resourcesDir url =
     (let path = requestPath url;
          file = getChildFile fs resourcesDir path
      in if \<not> existsAsFile fs file then None
         else Some \<lparr>data = loadFileAsData fs file, mimeType = inferMimeType path\<rparr>)"

subsection \<open>MIME inference as the specification words it\<close>

text \<open>
  The specification speaks of the file extension of the path and of a table from extensions
  to MIME types with a default. \<open>fileExtension\<close> is the part of a path from its last dot
  on (empty when the path has no dot); \<open>specMimeType\<close> looks the extension up in the table.
  These two follow the specification, not the code; \<open>inferMimeType\<close> above is the code.
\<close>

definition fileExtension :: "string \<Rightarrow> string" where
  "fileExtension path =
     (if CHR ''.'' \<in> set path
      then CHR ''.'' # rev (takeWhile (\<lambda>c. c \<noteq> CHR ''.'') (rev path))
      else [])"

definition mimeTable :: "(string \<times> string) list" where
  "mimeTable =
     [(''.html'', ''text/html''),
      (''.css'', ''text/css''),
      (''.js'', ''application/javascript''),
      (''.json'', ''application/json''),
      (''.png'', ''image/png''),
      (''.svg'', ''image/svg+xml''),
      (''.woff2'', ''font/woff2'')]"

definition specMimeType :: "string \<Rightarrow> string" where
  "specMimeType path =
     (case map_of mimeTable (fileExtension path) of
        Some m \<Rightarrow> m
      | None \<Rightarrow> ''application/octet-stream'')"

subsection \<open>Values exchanged with the browser\<close>

text \<open>
  \<^verbatim>\<open>juce::var\<close> with the variants the editor builds or receives. A
  \<^verbatim>\<open>juce::DynamicObject\<close> is the list of its named properties in the order they were
  first set; \<open>setProperty\<close> replaces the value of a name already there and appends a new
  name otherwise. \<open>getProperty\<close> is \<^verbatim>\<open>var::getProperty(name, defaultValue)\<close>: the
  default is returned for a missing property and for a value that is not an object.
  \<open>toString\<close> is \<^verbatim>\<open>var::toString\<close>; the text of a number or of an object depends on
  number formatting and on an address, and is taken from the parameter \<open>other\<close>.
\<close>

datatype var =
    VVoid
  | VUndefined
  | VBool bool
  | VInt int
  | VDouble real
  | VString string
  | VArray "var list"
  | VObject "(string \<times> var) list"

type_synonym DynamicObject = "(string \<times> var) list"

fun setProperty :: "string \<Rightarrow> var \<Rightarrow> DynamicObject \<Rightarrow> DynamicObject" where
  "setProperty n v [] = [(n, v)]"
| "setProperty n v ((k, x) # ps) =
     (if k = n then (k, v) # ps else (k, x) # setProperty n v ps)"

fun getProperty :: "var \<Rightarrow> string \<Rightarrow> var \<Rightarrow> var" where
  "getProperty (VObject ps) n d = (case map_of ps n of Some v \<Rightarrow> v | None \<Rightarrow> d)"
| "getProperty v n d = d"

fun toString :: "(var \<Rightarrow> string) \<Rightarrow> var \<Rightarrow> string" where
  "toString other VVoid = []"
| "toString other VUndefined = ''undefined''"
| "toString other (VBool b) = (if b then ''1'' else ''0'')"
| "toString other (VString s) = s"
| "toString other (VArray xs) = ''[Array]''"
| "toString other v = other v"

subsection \<open>The processor and the activation client\<close>

text \<open>
  Modelled from the spec: \<^verbatim>\<open>ParameterIDs.h\<close> is not part of the sources. The editor
  names fifteen constants of the namespace \<^verbatim>\<open>ParameterIDs\<close>; the specification calls them
  the fifteen parameter keys, each a stable key of its own, so each constant is a
  constructor of its own (\<open>output_id\<close> is \<^verbatim>\<open>ParameterIDs::output\<close>, a reserved word here).
\<close>

datatype ParameterID =
    bitcrush | downsample | noise | crackle | wobble | dropout | saturation | age
  | filterCutoff | filterRes | filterDrive | mode | mix | output_id | bypass

text \<open>
  Modelled from the spec: the activation client (\<^verbatim>\<open>beatconnect\<close>) is not part of the
  sources. \<open>ActivationInfo\<close> has the six fields the editor copies. The editor tells the
  status \<open>Valid\<close> from all others; the other constructors are the outcomes the
  specification lists (failure, invalid code, network error). A call of \<^verbatim>\<open>activate\<close>
  or \<^verbatim>\<open>deactivate\<close> is recorded in \<open>calls\<close>; the client completes a call later by
  invoking the callback it was given (\<open>activateCallback\<close>, \<open>deactivateCallback\<close> below).
\<close>

record ActivationInfo =
  activationCode :: string
  machineId :: string
  activatedAt :: string
  currentActivations :: int
  maxActivations :: int
  isValid :: bool

datatype ActivationStatus = Valid | Invalid | Failed | NetworkError

datatype ActivationCall = Activate string | Deactivate

record Activation =
  isConfigured :: bool
  isActivated :: bool
  getActivationInfo :: ActivationInfo
  calls :: "ActivationCall list"

text \<open>
  What the editor reads of the processor (\<^verbatim>\<open>PluginProcessor.h\<close> is not part of the
  sources): the seven metering accessors, each with the \<^verbatim>\<open>juce::var\<close> its result
  converts to; the parameter tree, a map from a key to the parameter's normalised value,
  where \<open>None\<close> is the null pointer \<^verbatim>\<open>getParameter\<close> returns for an unknown key; and
  the activation client, \<open>None\<close> being the null handle.
\<close>

record OxideAudioProcessor =
  getCurrentRMS :: var
  getCurrentPeak :: var
  getWobblePhase :: var
  getCrackleActivity :: var
  getCurrentMode :: var
  isBypassed :: var
  getDegradationAmount :: var
  getParameter :: "ParameterID \<Rightarrow> real option"
  hasActivationEnabled :: bool
  getActivation :: "Activation option"

subsection \<open>The editor\<close>

text \<open>
  The members of the class in the order of their declaration (PluginEditor.h, lines 26 to
  74). The thirty \<^verbatim>\<open>std::unique_ptr\<close> members of the parameter bridge are two enumerations
  of slots; a slot holds \<open>None\<close> (the null pointer) or the object it owns.
\<close>

datatype RelayMember =
    bitcrushRelay | downsampleRelay | noiseRelay | crackleRelay | wobbleRelay
  | dropoutRelay | saturationRelay | ageRelay | filterCutoffRelay | filterResRelay
  | filterDriveRelay | modeRelay | mixRelay | outputRelay | bypassRelay

datatype AttachmentMember =
    bitcrushAttachment | downsampleAttachment | noiseAttachment | crackleAttachment
  | wobbleAttachment | dropoutAttachment | saturationAttachment | ageAttachment
  | filterCutoffAttachment | filterResAttachment | filterDriveAttachment | modeAttachment
  | mixAttachment | outputAttachment | bypassAttachment

datatype Member =
    ProcessorRefMember
  | RelayPtr RelayMember
  | AttachmentPtr AttachmentMember
  | WebViewPtr
  | ResourcesDirMember
  | VisualizerTimerMember

definition relayMembers :: "RelayMember list" where
  "relayMembers =
     [bitcrushRelay, downsampleRelay, noiseRelay, crackleRelay, wobbleRelay,
      dropoutRelay, saturationRelay, ageRelay, filterCutoffRelay, filterResRelay,
      filterDriveRelay, modeRelay, mixRelay, outputRelay, bypassRelay]"

definition attachmentMembers :: "AttachmentMember list" where
  "attachmentMembers =
     [bitcrushAttachment, downsampleAttachment, noiseAttachment, crackleAttachment,
      wobbleAttachment, dropoutAttachment, saturationAttachment, ageAttachment,
      filterCutoffAttachment, filterResAttachment, filterDriveAttachment, modeAttachment,
      mixAttachment, outputAttachment, bypassAttachment]"

definition memberDeclarations :: "Member list" where
  "memberDeclarations =
     [ProcessorRefMember] @ map RelayPtr relayMembers @ map AttachmentPtr attachmentMembers
       @ [WebViewPtr, ResourcesDirMember, VisualizerTimerMember]"

datatype RelayClass = WebSliderRelay | WebToggleButtonRelay

record Relay =
  relayClass :: RelayClass
  relayName :: ParameterID

datatype AttachmentClass = WebSliderParameterAttachment | WebToggleButtonParameterAttachment

record Attachment =
  attachmentClass :: AttachmentClass
  attachedParameter :: ParameterID
  attachedRelay :: RelayMember

text \<open>
  The browser view. Its options hold the relays registered by \<^verbatim>\<open>withOptionsFrom\<close> and
  the event listeners by name; the three listener lambdas are the constructors of
  \<open>Listener\<close>. \<open>frontendEvents\<close> are the events delivered to the page so far.
\<close>

datatype Listener =
  GetActivationStatusListener | ActivateLicenseListener | DeactivateLicenseListener

record Options =
  resourceProviderInstalled :: bool
  registeredRelays :: "RelayMember list"
  eventListeners :: "(string \<times> Listener) list"

record WebBrowserComponent =
  options :: Options
  browserVisible :: bool
  currentURL :: string
  bounds :: "int \<times> int"
  frontendEvents :: "(string \<times> var) list"

text \<open>
  A message posted to the UI thread by \<^verbatim>\<open>MessageManager::callAsync\<close>: the inner lambda
  of a completion callback with the values it captured.
\<close>

datatype Message =
    ActivationResultMessage ActivationStatus ActivationInfo
  | DeactivationResultMessage ActivationStatus

text \<open>
  \<open>lifecycle\<close> is the history of the editor's objects: which were constructed, registered
  with the options of the browser view, and destroyed, in the order it happened.
\<close>

datatype LifecycleEvent =
    Constructed Member
  | Registered RelayMember
  | TimerStarted
  | TimerStopped
  | Destroyed Member

record Editor =
  processorRef :: OxideAudioProcessor
  relays :: "RelayMember \<Rightarrow> Relay option"
  attachments :: "AttachmentMember \<Rightarrow> Attachment option"
  webView :: "WebBrowserComponent option"
  resourcesDir :: File
  timerHz :: "nat option"
  editorSize :: "int \<times> int"
  messageQueue :: "Message list"
  lifecycle :: "LifecycleEvent list"

datatype error = NullPointerDereference

text \<open>
  What the build and the platform fix: the two preprocessor flags, the file system, the
  root URL of the resource provider, and two functions of absent libraries
  (\<^verbatim>\<open>beatconnect::statusToString\<close>, and the text of a number or object for \<open>toString\<close>).
\<close>

record Environment =
  BEATCONNECT_ACTIVATION_ENABLED :: bool
  OXIDE_DEV_MODE :: bool
  fileSystem :: FileSystem
  resourceProviderRoot :: string
  statusToString :: "ActivationStatus \<Rightarrow> string"
  textOfOther :: "var \<Rightarrow> string"

text \<open>Running a list of fallible steps; the first error ends the run.\<close>

fun foldE :: "('a \<Rightarrow> 's \<Rightarrow> error + 's) \<Rightarrow> 'a list \<Rightarrow> 's \<Rightarrow> error + 's" where
  "foldE f [] s = Inr s"
| "foldE f (x # xs) s = (case f x s of Inl err \<Rightarrow> Inl err | Inr s' \<Rightarrow> foldE f xs s')"

subsection \<open>Construction\<close>

text \<open>
  The state before the body of the constructor runs: every \<^verbatim>\<open>unique_ptr\<close> is null, the
  timer is constructed and not running.
\<close>

definition initialEditor :: "OxideAudioProcessor \<Rightarrow> Editor" where
  "initialEditor p =
     \<lparr>processorRef = p,
      relays = (\<lambda>m. None),
      attachments = (\<lambda>m. None),
      webView = None,
      resourcesDir = [],
      timerHz = None,
      editorSize = (0, 0),
      messageQueue = [],
      lifecycle = []\<rparr>"

text \<open>
  Lines 16 to 30: one \<^verbatim>\<open>std::make_unique\<close> per row, assigned to the member of the row.
\<close>

definition relayConstructions :: "(RelayMember \<times> RelayClass \<times> ParameterID) list" where
  "relayConstructions =
     [(bitcrushRelay, WebSliderRelay, bitcrush),
      (downsampleRelay, WebSliderRelay, downsample),
      (noiseRelay, WebSliderRelay, noise),
      (crackleRelay, WebSliderRelay, crackle),
      (wobbleRelay, WebSliderRelay, wobble),
      (dropoutRelay, WebSliderRelay, dropout),
      (saturationRelay, WebSliderRelay, saturation),
      (ageRelay, WebSliderRelay, age),
      (filterCutoffRelay, WebSliderRelay, filterCutoff),
      (filterResRelay, WebSliderRelay, filterRes),
      (filterDriveRelay, WebSliderRelay, filterDrive),
      (modeRelay, WebSliderRelay, mode),
      (mixRelay, WebSliderRelay, mix),
      (outputRelay, WebSliderRelay, output_id),
      (bypassRelay, WebToggleButtonRelay, bypass)]"

definition makeRelay :: "RelayMember \<times> RelayClass \<times> ParameterID \<Rightarrow> Editor \<Rightarrow> Editor" where
  "makeRelay row e =
     (case row of (m, c, k) \<Rightarrow>
        e\<lparr>relays := (relays e)(m \<mapsto> \<lparr>relayClass = c, relayName = k\<rparr>),
          lifecycle := lifecycle e @ [Constructed (RelayPtr m)]\<rparr>)"

text \<open>
  Lines 79 to 86 of \<^verbatim>\<open>setupWebView\<close>: the resources directory is the first of three
  candidates that is a directory, and the third if none is.
\<close>

definition findResourcesDir :: "FileSystem \<Rightarrow> File" where
  "findResourcesDir fs =
     (let executableFile = currentExecutableFile fs;
          executableDir = getParentDirectory fs executableFile;
          dir = getChildFile fs (getChildFile fs executableDir ''Resources'') ''WebUI'';
          dir = (if \<not> isDirectory fs dir then getChildFile fs executableDir ''WebUI'' else dir);
          dir = (if \<not> isDirectory fs dir
                 then getChildFile fs
                        (getChildFile fs (getParentDirectory fs executableDir) ''Resources'')
                        ''WebUI''
                 else dir)
      in dir)"

text \<open>
  Lines 122 to 136: \<^verbatim>\<open>withOptionsFrom(*relay)\<close> dereferences the member and registers
  the relay with the options under construction.
\<close>

definition relayRegistrations :: "RelayMember list" where
  "relayRegistrations =
     [bitcrushRelay, downsampleRelay, noiseRelay, crackleRelay, wobbleRelay,
      dropoutRelay, saturationRelay, ageRelay, filterCutoffRelay, filterResRelay,
      filterDriveRelay, modeRelay, mixRelay, outputRelay, bypassRelay]"

definition withOptionsFrom :: "RelayMember \<Rightarrow> Editor \<times> Options \<Rightarrow> error + Editor \<times> Options" where
  "withOptionsFrom m s =
     (case s of (e, opts) \<Rightarrow>
        (case relays e m of
           None \<Rightarrow> Inl NullPointerDereference
         | Some r \<Rightarrow>
             Inr (e\<lparr>lifecycle := lifecycle e @ [Registered m]\<rparr>,
                  opts\<lparr>registeredRelays := registeredRelays opts @ [m]\<rparr>)))"

definition withEventListener :: "string \<Rightarrow> Listener \<Rightarrow> Options \<Rightarrow> Options" where
  "withEventListener name l opts = opts\<lparr>eventListeners := eventListeners opts @ [(name, l)]\<rparr>"

text \<open>
  \<^verbatim>\<open>setupWebView\<close> (lines 76 to 174). The two activation listeners are registered only
  when \<^verbatim>\<open>BEATCONNECT_ACTIVATION_ENABLED\<close> is set. \<^verbatim>\<open>addAndMakeVisible\<close> makes the new
  view visible; \<^verbatim>\<open>goToURL\<close> sets its URL.
\<close>

definition setupWebView :: "Environment \<Rightarrow> Editor \<Rightarrow> error + Editor" where
  "setupWebView env e =
     (let e = e\<lparr>resourcesDir := findResourcesDir (fileSystem env)\<rparr>;
          opts = \<lparr>resourceProviderInstalled = True, registeredRelays = [], eventListeners = []\<rparr>
      in case foldE withOptionsFrom relayRegistrations (e, opts) of
           Inl err \<Rightarrow> Inl err
         | Inr (e, opts) \<Rightarrow>
             (let opts = withEventListener ''getActivationStatus'' GetActivationStatusListener opts;
                  opts = (if BEATCONNECT_ACTIVATION_ENABLED env
                          then withEventListener ''deactivateLicense'' DeactivateLicenseListener
                                 (withEventListener ''activateLicense'' ActivateLicenseListener opts)
                          else opts);
                  w = \<lparr>options = opts, browserVisible = False, currentURL = [],
                       bounds = (0, 0), frontendEvents = []\<rparr>;
                  e = e\<lparr>webView := Some w, lifecycle := lifecycle e @ [Constructed WebViewPtr]\<rparr>;
                  w = w\<lparr>browserVisible := True\<rparr>;
                  w = w\<lparr>currentURL := (if OXIDE_DEV_MODE env then ''http://localhost:5173''
                                         else resourceProviderRoot env)\<rparr>
              in Inr (e\<lparr>webView := Some w\<rparr>)))"

text \<open>
  Lines 35 to 65: each attachment is made from the parameter \<^verbatim>\<open>getParameter\<close> returns
  and from the relay the member points to, both dereferenced.
\<close>

definition attachmentConstructions ::
  "(AttachmentMember \<times> AttachmentClass \<times> ParameterID \<times> RelayMember) list" where
  "attachmentConstructions =
     [(bitcrushAttachment, WebSliderParameterAttachment, bitcrush, bitcrushRelay),
      (downsampleAttachment, WebSliderParameterAttachment, downsample, downsampleRelay),
      (noiseAttachment, WebSliderParameterAttachment, noise, noiseRelay),
      (crackleAttachment, WebSliderParameterAttachment, crackle, crackleRelay),
      (wobbleAttachment, WebSliderParameterAttachment, wobble, wobbleRelay),
      (dropoutAttachment, WebSliderParameterAttachment, dropout, dropoutRelay),
      (saturationAttachment, WebSliderParameterAttachment, saturation, saturationRelay),
      (ageAttachment, WebSliderParameterAttachment, age, ageRelay),
      (filterCutoffAttachment, WebSliderParameterAttachment, filterCutoff, filterCutoffRelay),
      (filterResAttachment, WebSliderParameterAttachment, filterRes, filterResRelay),
      (filterDriveAttachment, WebSliderParameterAttachment, filterDrive, filterDriveRelay),
      (modeAttachment, WebSliderParameterAttachment, mode, modeRelay),
      (mixAttachment, WebSliderParameterAttachment, mix, mixRelay),
      (outputAttachment, WebSliderParameterAttachment, output_id, outputRelay),
      (bypassAttachment, WebToggleButtonParameterAttachment, bypass, bypassRelay)]"

definition makeAttachment ::
  "AttachmentMember \<times> AttachmentClass \<times> ParameterID \<times> RelayMember \<Rightarrow> Editor \<Rightarrow> error + Editor" where
  "makeAttachment row e =
     (case row of (m, c, k, r) \<Rightarrow>
        (case getParameter (processorRef e) k of
           None \<Rightarrow> Inl NullPointerDereference
         | Some v \<Rightarrow>
             (case relays e r of
                None \<Rightarrow> Inl NullPointerDereference
              | Some rel \<Rightarrow>
                  Inr (e\<lparr>attachments := (attachments e)
                            (m \<mapsto> \<lparr>attachmentClass = c, attachedParameter = k,
                                   attachedRelay = r\<rparr>),
                        lifecycle := lifecycle e @ [Constructed (AttachmentPtr m)]\<rparr>))))"

text \<open>The constructor (lines 9 to 69).\<close>

definition OxideAudioProcessorEditor :: "Environment \<Rightarrow> OxideAudioProcessor \<Rightarrow> error + Editor" where
  "OxideAudioProcessorEditor env p =
     (let e = initialEditor p;
          e = e\<lparr>editorSize := (850, 550)\<rparr>;
          e = fold makeRelay relayConstructions e
      in case setupWebView env e of
           Inl err \<Rightarrow> Inl err
         | Inr e \<Rightarrow>
             (case foldE makeAttachment attachmentConstructions e of
                Inl err \<Rightarrow> Inl err
              | Inr e \<Rightarrow> Inr (e\<lparr>timerHz := Some 60, lifecycle := lifecycle e @ [TimerStarted]\<rparr>)))"

subsection \<open>Destruction\<close>

text \<open>
  The body of the destructor stops the timer (lines 71 to 74); then the members are
  destroyed in the reverse order of their declaration. Destroying a \<^verbatim>\<open>unique_ptr\<close>
  destroys the object it owns, if any; the reference \<^verbatim>\<open>processorRef\<close> owns nothing.
\<close>

fun destroyMember :: "Member \<Rightarrow> Editor \<Rightarrow> Editor" where
  "destroyMember ProcessorRefMember e = e"
| "destroyMember (RelayPtr m) e =
     (case relays e m of
        None \<Rightarrow> e
      | Some r \<Rightarrow> e\<lparr>relays := (relays e)(m := None),
                     lifecycle := lifecycle e @ [Destroyed (RelayPtr m)]\<rparr>)"
| "destroyMember (AttachmentPtr m) e =
     (case attachments e m of
        None \<Rightarrow> e
      | Some a \<Rightarrow> e\<lparr>attachments := (attachments e)(m := None),
                     lifecycle := lifecycle e @ [Destroyed (AttachmentPtr m)]\<rparr>)"
| "destroyMember WebViewPtr e =
     (case webView e of
        None \<Rightarrow> e
      | Some w \<Rightarrow> e\<lparr>webView := None, lifecycle := lifecycle e @ [Destroyed WebViewPtr]\<rparr>)"
| "destroyMember ResourcesDirMember e =
     e\<lparr>lifecycle := lifecycle e @ [Destroyed ResourcesDirMember]\<rparr>"
| "destroyMember VisualizerTimerMember e =
     e\<lparr>timerHz := None, lifecycle := lifecycle e @ [Destroyed VisualizerTimerMember]\<rparr>"

definition destructor :: "Editor \<Rightarrow> Editor" where
  "destructor e =
     (let e = e\<lparr>timerHz := None, lifecycle := lifecycle e @ [TimerStopped]\<rparr>
      in fold destroyMember (rev memberDeclarations) e)"

text \<open>
  \<open>destructionOrder e\<close> is what the destructor adds to the history of \<open>e\<close>.
  \<open>precedes a b xs\<close>: \<open>b\<close> occurs in \<open>xs\<close>, and \<open>a\<close> occurs before the first \<open>b\<close>.
\<close>

definition destructionOrder :: "Editor \<Rightarrow> LifecycleEvent list" where
  "destructionOrder e = drop (length (lifecycle e)) (lifecycle (destructor e))"

definition precedes :: "'a \<Rightarrow> 'a \<Rightarrow> 'a list \<Rightarrow> bool" where
  "precedes a b xs = (b \<in> set xs \<and> a \<in> set (takeWhile (\<lambda>x. x \<noteq> b) xs))"

subsection \<open>Emitting events\<close>

text \<open>
  Modelled from the spec: \<^verbatim>\<open>emitEventIfBrowserIsVisible\<close> belongs to the GUI framework;
  the specification describes it as "an event-emission primitive that is a no-op when the
  view is not visible". A visible view receives the event.
\<close>

definition emitEventIfBrowserIsVisible ::
  "string \<Rightarrow> var \<Rightarrow> WebBrowserComponent \<Rightarrow> WebBrowserComponent" where
  "emitEventIfBrowserIsVisible eventId object w =
     (if browserVisible w then w\<lparr>frontendEvents := frontendEvents w @ [(eventId, object)]\<rparr>
      else w)"

text \<open>
  \<^verbatim>\<open>webView->emitEventIfBrowserIsVisible(...)\<close> where the code does not test the pointer.
\<close>

definition webViewEmit :: "string \<Rightarrow> var \<Rightarrow> Editor \<Rightarrow> error + Editor" where
  "webViewEmit eventId object e =
     (case webView e of
        None \<Rightarrow> Inl NullPointerDereference
      | Some w \<Rightarrow> Inr (e\<lparr>webView := Some (emitEventIfBrowserIsVisible eventId object w)\<rparr>))"

text \<open>The events the page has received from the editor's view so far.\<close>

definition emitted :: "Editor \<Rightarrow> (string \<times> var) list" where
  "emitted e = (case webView e of None \<Rightarrow> [] | Some w \<Rightarrow> frontendEvents w)"

subsection \<open>The visualizer timer\<close>

text \<open>
  \<^verbatim>\<open>VisualizerTimer::timerCallback\<close> (lines 176 to 190). The function returns nothing;
  the first component of the result here is the local object \<^verbatim>\<open>data\<close> holding the seven
  sampled values, \<open>None\<close> when the function returns before it samples. The second
  component is the editor after the call.
\<close>

definition timerCallback :: "Editor \<Rightarrow> DynamicObject option \<times> Editor" where
  "timerCallback e =
     (case webView e of
        None \<Rightarrow> (None, e)
      | Some w \<Rightarrow>
          (let p = processorRef e;
               data = [];
               data = setProperty ''rms'' (getCurrentRMS p) data;
               data = setProperty ''peak'' (getCurrentPeak p) data;
               data = setProperty ''wobblePhase'' (getWobblePhase p) data;
               data = setProperty ''crackleActivity'' (getCrackleActivity p) data;
               data = setProperty ''mode'' (getCurrentMode p) data;
               data = setProperty ''bypassed'' (isBypassed p) data;
               data = setProperty ''degradation'' (getDegradationAmount p) data
           in (Some data,
               e\<lparr>webView := Some (emitEventIfBrowserIsVisible ''visualizerData'' (VObject data) w)\<rparr>)))"

text \<open>
  The seven metering values of the processor under the names of the event's fields: what a
  sample of the DSP engine is.
\<close>

definition visualizerSample :: "OxideAudioProcessor \<Rightarrow> DynamicObject" where
  "visualizerSample p =
     [(''rms'', getCurrentRMS p),
      (''peak'', getCurrentPeak p),
      (''wobblePhase'', getWobblePhase p),
      (''crackleActivity'', getCrackleActivity p),
      (''mode'', getCurrentMode p),
      (''bypassed'', isBypassed p),
      (''degradation'', getDegradationAmount p)]"

subsection \<open>The activation bridge\<close>

definition activationInfoObject :: "ActivationInfo \<Rightarrow> DynamicObject" where
  "activationInfoObject info =
     (let infoObj = [];
          infoObj = setProperty ''activationCode'' (VString (activationCode info)) infoObj;
          infoObj = setProperty ''machineId'' (VString (machineId info)) infoObj;
          infoObj = setProperty ''activatedAt'' (VString (activatedAt info)) infoObj;
          infoObj = setProperty ''currentActivations'' (VInt (currentActivations info)) infoObj;
          infoObj = setProperty ''maxActivations'' (VInt (maxActivations info)) infoObj;
          infoObj = setProperty ''isValid'' (VBool (isValid info)) infoObj
      in infoObj)"

text \<open>\<^verbatim>\<open>sendActivationState\<close> (lines 193 to 216).\<close>

definition sendActivationState :: "Editor \<Rightarrow> error + Editor" where
  "sendActivationState e =
     (case getActivation (processorRef e) of
        None \<Rightarrow> Inr e
      | Some activation \<Rightarrow>
          (let data = [];
               data = setProperty ''isConfigured'' (VBool (isConfigured activation)) data;
               data = setProperty ''isActivated'' (VBool (isActivated activation)) data;
               data = (if isActivated activation
                       then setProperty ''info''
                              (VObject (activationInfoObject (getActivationInfo activation))) data
                       else data)
           in webViewEmit ''activationState'' (VObject data) e))"

text \<open>
  \<^verbatim>\<open>handleActivateLicense\<close> (lines 218 to 246) up to the call of \<^verbatim>\<open>activate\<close>, which is
  recorded with the code it is given. \<open>activateCallback\<close> is the callback passed to
  \<^verbatim>\<open>activate\<close> (lines 226 to 245): it posts the inner lambda to the UI thread.
\<close>

definition handleActivateLicense :: "Environment \<Rightarrow> var \<Rightarrow> Editor \<Rightarrow> Editor" where
  "handleActivateLicense env d e =
     (case getActivation (processorRef e) of
        None \<Rightarrow> e
      | Some activation \<Rightarrow>
          (let code = toString (textOfOther env) (getProperty d ''code'' (VString []))
           in e\<lparr>processorRef := (processorRef e)
                  \<lparr>getActivation := Some (activation\<lparr>calls := calls activation @ [Activate code]\<rparr>)\<rparr>\<rparr>))"

definition activateCallback :: "ActivationStatus \<Rightarrow> ActivationInfo \<Rightarrow> Editor \<Rightarrow> Editor" where
  "activateCallback status info e =
     e\<lparr>messageQueue := messageQueue e @ [ActivationResultMessage status info]\<rparr>"

text \<open>
  \<^verbatim>\<open>handleDeactivateLicense\<close> (lines 248 to 261) and the callback passed to
  \<^verbatim>\<open>deactivate\<close> (lines 254 to 260).
\<close>

definition handleDeactivateLicense :: "var \<Rightarrow> Editor \<Rightarrow> Editor" where
  "handleDeactivateLicense d e =
     (case getActivation (processorRef e) of
        None \<Rightarrow> e
      | Some activation \<Rightarrow>
          e\<lparr>processorRef := (processorRef e)
              \<lparr>getActivation := Some (activation\<lparr>calls := calls activation @ [Deactivate]\<rparr>)\<rparr>\<rparr>)"

definition deactivateCallback :: "ActivationStatus \<Rightarrow> Editor \<Rightarrow> Editor" where
  "deactivateCallback status e =
     e\<lparr>messageQueue := messageQueue e @ [DeactivationResultMessage status]\<rparr>"

text \<open>
  The inner lambdas (lines 227 to 244 and 255 to 259), run on the UI thread when their
  message is dispatched.
\<close>

fun runMessage :: "Environment \<Rightarrow> Message \<Rightarrow> Editor \<Rightarrow> error + Editor" where
  "runMessage env (ActivationResultMessage status info) e =
     (let result = [];
          result = setProperty ''status'' (VString (statusToString env status)) result;
          result = (if status = Valid
                    then setProperty ''info'' (VObject (activationInfoObject info)) result
                    else result)
      in webViewEmit ''activationResult'' (VObject result) e)"
| "runMessage env (DeactivationResultMessage status) e =
     (let result = [];
          result = setProperty ''status'' (VString (statusToString env status)) result
      in webViewEmit ''deactivationResult'' (VObject result) e)"

definition dispatchMessage :: "Environment \<Rightarrow> Editor \<Rightarrow> error + Editor" where
  "dispatchMessage env e =
     (case messageQueue e of
        [] \<Rightarrow> Inr e
      | m # ms \<Rightarrow> runMessage env m (e\<lparr>messageQueue := ms\<rparr>))"

text \<open>
  The event a posted message stands for: the name and the object its lambda passes to the
  view (lemma \<open>runMessage_resultEvent\<close> below).
\<close>

fun resultEvent :: "Environment \<Rightarrow> Message \<Rightarrow> string \<times> var" where
  "resultEvent env (ActivationResultMessage status info) =
     (''activationResult'',
      VObject ((''status'', VString (statusToString env status))
               # (if status = Valid then [(''info'', VObject (activationInfoObject info))]
                  else [])))"
| "resultEvent env (DeactivationResultMessage status) =
     (''deactivationResult'', VObject [(''status'', VString (statusToString env status))])"

text \<open>\<^verbatim>\<open>handleGetActivationStatus\<close> (lines 263 to 266); nothing in the sources calls it.\<close>

definition handleGetActivationStatus :: "Editor \<Rightarrow> error + Editor" where
  "handleGetActivationStatus e = sendActivationState e"

text \<open>
  The listener registered for \<^verbatim>\<open>getActivationStatus\<close> (lines 137 to 147), with both
  branches of the preprocessor conditional.
\<close>

definition getActivationStatusListener :: "Environment \<Rightarrow> var \<Rightarrow> Editor \<Rightarrow> error + Editor" where
  "getActivationStatusListener env d e =
     (let data = [];
          data = (if BEATCONNECT_ACTIVATION_ENABLED env
                  then (let data = setProperty ''isConfigured''
                                     (VBool (hasActivationEnabled (processorRef e))) data;
                            data = setProperty ''isActivated'' (VBool False) data
                        in data)
                  else (let data = setProperty ''isConfigured'' (VBool False) data;
                            data = setProperty ''isActivated'' (VBool False) data
                        in data))
      in webViewEmit ''activationState'' (VObject data) e)"

fun invokeListener :: "Environment \<Rightarrow> Listener \<Rightarrow> var \<Rightarrow> Editor \<Rightarrow> error + Editor" where
  "invokeListener env GetActivationStatusListener d e = getActivationStatusListener env d e"
| "invokeListener env ActivateLicenseListener d e = Inr (handleActivateLicense env d e)"
| "invokeListener env DeactivateLicenseListener d e = Inr (handleDeactivateLicense d e)"

subsection \<open>The life of an editor\<close>

text \<open>\<^verbatim>\<open>resized\<close> (lines 274 to 278); \<^verbatim>\<open>paint\<close> changes nothing of the editor.\<close>

definition resized :: "Editor \<Rightarrow> Editor" where
  "resized e =
     (case webView e of
        None \<Rightarrow> e
      | Some w \<Rightarrow> e\<lparr>webView := Some (w\<lparr>bounds := editorSize e\<rparr>)\<rparr>)"

text \<open>
  What can happen to a constructed editor: a timer tick, an event from the page (given to
  the listeners registered under its name), the completion of an activation call, the
  dispatch of the next posted message, a layout, and the host showing or hiding the view.
\<close>

datatype Action =
    TimerTick
  | BrowserEvent string var
  | ActivateCompleted ActivationStatus ActivationInfo
  | DeactivateCompleted ActivationStatus
  | DispatchMessage
  | Resized
  | SetBrowserVisible bool

definition browserEvent :: "Environment \<Rightarrow> string \<Rightarrow> var \<Rightarrow> Editor \<Rightarrow> error + Editor" where
  "browserEvent env name d e =
     (case webView e of
        None \<Rightarrow> Inr e
      | Some w \<Rightarrow>
          foldE (\<lambda>l. invokeListener env l d)
            (map snd (filter (\<lambda>nl. fst nl = name) (eventListeners (options w)))) e)"

fun step :: "Environment \<Rightarrow> Action \<Rightarrow> Editor \<Rightarrow> error + Editor" where
  "step env TimerTick e = Inr (snd (timerCallback e))"
| "step env (BrowserEvent name d) e = browserEvent env name d e"
| "step env (ActivateCompleted status info) e = Inr (activateCallback status info e)"
| "step env (DeactivateCompleted status) e = Inr (deactivateCallback status e)"
| "step env DispatchMessage e = dispatchMessage env e"
| "step env Resized e = Inr (resized e)"
| "step env (SetBrowserVisible b) e =
     Inr (case webView e of None \<Rightarrow> e | Some w \<Rightarrow> e\<lparr>webView := Some (w\<lparr>browserVisible := b\<rparr>)\<rparr>)"

definition run :: "Environment \<Rightarrow> Action list \<Rightarrow> Editor \<Rightarrow> error + Editor" where
  "run env acts e = foldE (step env) acts e"

text \<open>
  The calls the activation client has received, none when there is no client; and whether a
  value is an object with a property of the given name.
\<close>

definition activationCalls :: "Editor \<Rightarrow> ActivationCall list" where
  "activationCalls e = (case getActivation (processorRef e) of None \<Rightarrow> [] | Some a \<Rightarrow> calls a)"

definition hasProperty :: "var \<Rightarrow> string \<Rightarrow> bool" where
  "hasProperty d n = (case d of VObject ps \<Rightarrow> map_of ps n \<noteq> None | _ \<Rightarrow> False)"

text \<open>
  The parameter bridge of an editor: the objects its relay and attachment members own, the
  options of its view, and the history of its objects.
\<close>

definition bridge ::
  "Editor \<Rightarrow> (RelayMember \<Rightarrow> Relay option) \<times> (AttachmentMember \<Rightarrow> Attachment option)
     \<times> Options option \<times> LifecycleEvent list" where
  "bridge e = (relays e, attachments e, map_option options (webView e), lifecycle e)"

subsection \<open>The editor a successful construction yields\<close>

text \<open>
  The three tables above as maps from a member to the object it owns, and the history a
  construction writes. \<open>constructedEditor\<close> is the editor the constructor returns when it
  succeeds (lemma \<open>constructor_result\<close> below); it is used to evaluate the constructor once.
\<close>

definition constructedRelays :: "RelayMember \<Rightarrow> Relay option" where
  "constructedRelays =
     map_of (map (\<lambda>(m, c, k). (m, \<lparr>relayClass = c, relayName = k\<rparr>)) relayConstructions)"

definition constructedAttachments :: "AttachmentMember \<Rightarrow> Attachment option" where
  "constructedAttachments =
     map_of (map (\<lambda>(m, c, k, r).
                    (m, \<lparr>attachmentClass = c, attachedParameter = k, attachedRelay = r\<rparr>))
               attachmentConstructions)"

definition constructionHistory :: "LifecycleEvent list" where
  "constructionHistory =
     map (\<lambda>row. Constructed (RelayPtr (fst row))) relayConstructions
       @ map Registered relayRegistrations
       @ [Constructed WebViewPtr]
       @ map (\<lambda>row. Constructed (AttachmentPtr (fst row))) attachmentConstructions
       @ [TimerStarted]"

definition constructedListeners :: "Environment \<Rightarrow> (string \<times> Listener) list" where
  "constructedListeners env =
     (''getActivationStatus'', GetActivationStatusListener)
       # (if BEATCONNECT_ACTIVATION_ENABLED env
          then [(''activateLicense'', ActivateLicenseListener),
                (''deactivateLicense'', DeactivateLicenseListener)]
          else [])"

definition constructedEditor :: "Environment \<Rightarrow> OxideAudioProcessor \<Rightarrow> Editor" where
  "constructedEditor env p =
     \<lparr>processorRef = p,
      relays = constructedRelays,
      attachments = constructedAttachments,
      webView = Some
        \<lparr>options = \<lparr>resourceProviderInstalled = True,
                    registeredRelays = relayRegistrations,
                    eventListeners = constructedListeners env\<rparr>,
         browserVisible = True,
         currentURL = (if OXIDE_DEV_MODE env then ''http://localhost:5173''
                       else resourceProviderRoot env),
         bounds = (0, 0),
         frontendEvents = []\<rparr>,
      resourcesDir = findResourcesDir (fileSystem env),
      timerHz = Some 60,
      editorSize = (850, 550),
      messageQueue = [],
      lifecycle = constructionHistory\<rparr>"

subsection \<open>A concrete file system\<close>

text \<open>
  A small file system for evaluating the definitions: the plugin binary lies in \<open>/p\<close>,
  the web resources in \<open>/p/WebUI\<close>, which holds \<open>index.html\<close>, \<open>app.js\<close> and
  \<open>data.bin\<close>.
\<close>

definition exampleFileSystem :: FileSystem where
  "exampleFileSystem =
     \<lparr>currentExecutableFile = ''/p/Oxide'',
      getParentDirectory = (\<lambda>f. if f = ''/p/Oxide'' then ''/p'' else ''/''),
      getChildFile = (\<lambda>d n. d @ ''/'' @ n),
      isDirectory = (\<lambda>f. f = ''/p'' \<or> f = ''/p/WebUI''),
      existsAsFile = (\<lambda>f. f = ''/p/WebUI/index.html'' \<or> f = ''/p/WebUI/app.js''
                            \<or> f = ''/p/WebUI/data.bin''),
      loadFileAsData = (\<lambda>f. if f = ''/p/WebUI/index.html'' then [60, 104, 62] else [49])\<rparr>"

subsection \<open>A concrete plugin\<close>

text \<open>
  An environment with the activation feature compiled in, a processor whose parameter tree
  has all fifteen parameters and whose activation client is configured and activated, the
  editor constructed for it, the same editor with its view hidden by the host, and the
  same editor over a processor without an activation client.
\<close>

definition exampleEnvironment :: Environment where
  "exampleEnvironment =
     \<lparr>BEATCONNECT_ACTIVATION_ENABLED = True,
      OXIDE_DEV_MODE = False,
      fileSystem = exampleFileSystem,
      resourceProviderRoot = ''https://juce.backend/'',
      statusToString = (\<lambda>s. case s of Valid \<Rightarrow> ''Valid'' | Invalid \<Rightarrow> ''Invalid''
                              | Failed \<Rightarrow> ''Failed'' | NetworkError \<Rightarrow> ''NetworkError''),
      textOfOther = (\<lambda>v. ''?'')\<rparr>"

definition exampleInfo :: ActivationInfo where
  "exampleInfo =
     \<lparr>activationCode = ''ABCD-1234'', machineId = ''m1'', activatedAt = ''2025-01-01'',
      currentActivations = 1, maxActivations = 3, isValid = True\<rparr>"

definition exampleActivation :: Activation where
  "exampleActivation =
     \<lparr>isConfigured = True, isActivated = True, getActivationInfo = exampleInfo, calls = []\<rparr>"

definition exampleProcessor :: OxideAudioProcessor where
  "exampleProcessor =
     \<lparr>getCurrentRMS = VDouble 0.25,
      getCurrentPeak = VDouble 0.5,
      getWobblePhase = VDouble 0,
      getCrackleActivity = VDouble 0,
      getCurrentMode = VInt 2,
      isBypassed = VBool False,
      getDegradationAmount = VDouble 0.75,
      getParameter = (\<lambda>k. Some 0.5),
      hasActivationEnabled = True,
      getActivation = Some exampleActivation\<rparr>"

definition exampleEditor :: Editor where
  "exampleEditor = constructedEditor exampleEnvironment exampleProcessor"

definition hiddenEditor :: Editor where
  "hiddenEditor = sum.projr (step exampleEnvironment (SetBrowserVisible False) exampleEditor)"

definition unlicensedEditor :: Editor where
  "unlicensedEditor =
     constructedEditor exampleEnvironment (exampleProcessor\<lparr>getActivation := None\<rparr>)"

section \<open>Properties of the resource provider\<close>

lemma requestPath_root: "requestPath ''/'' = ''index.html''"
  by (simp add: requestPath_def startsWith_def substring1_def)

lemma requestPath_index: "requestPath ''/index.html'' = ''index.html''"
  by (simp add: requestPath_def startsWith_def substring1_def)

text \<open>
  C5. The resource provider answers the request path \<open>/\<close> with the same payload (bytes and
  MIME type) as \<open>/index.html\<close>, and whenever the file a request resolves to does not
  exist it answers "not found" (\<open>None\<close>); it has no other failure.
\<close>

theorem resource_root_is_index_and_missing_is_not_found:
  "resourceProvider fs dir ''/'' = resourceProvider fs dir ''/index.html'' \<and>
   (\<not> existsAsFile fs (getChildFile fs dir (requestPath url))
      \<longrightarrow> resourceProvider fs dir url = None)"
  by (simp add: resourceProvider_def requestPath_root requestPath_index)

theorem resource_root_is_index_and_missing_is_not_found_witness:
  "resourceProvider exampleFileSystem ''/p/WebUI'' ''/'' =
     Some \<lparr>data = [60, 104, 62], mimeType = ''text/html''\<rparr> \<and>
   resourceProvider exampleFileSystem ''/p/WebUI'' ''/index.html'' =
     Some \<lparr>data = [60, 104, 62], mimeType = ''text/html''\<rparr> \<and>
   \<not> existsAsFile exampleFileSystem
       (getChildFile exampleFileSystem ''/p/WebUI'' (requestPath ''/missing.css'')) \<and>
   resourceProvider exampleFileSystem ''/p/WebUI'' ''/missing.css'' = None"
  using resource_root_is_index_and_missing_is_not_found
          [of exampleFileSystem "''/p/WebUI''" "''/missing.css''"]
  by (simp add: resourceProvider_def requestPath_def startsWith_def substring1_def
        inferMimeType_def endsWith_def exampleFileSystem_def)

lemma endsWith_append: "endsWith s t = (\<exists>p. s = p @ t)"
  unfolding endsWith_def
proof
  assume h: "length t \<le> length s \<and> drop (length s - length t) s = t"
  have "s = take (length s - length t) s @ drop (length s - length t) s" by simp
  with h show "\<exists>p. s = p @ t" by metis
next
  assume "\<exists>p. s = p @ t"
  then show "length t \<le> length s \<and> drop (length s - length t) s = t" by auto
qed

lemma fileExtension_append:
  "CHR ''.'' \<notin> set e \<Longrightarrow> fileExtension (p @ CHR ''.'' # e) = CHR ''.'' # e"
proof -
  assume h: "CHR ''.'' \<notin> set e"
  have "takeWhile (\<lambda>c. c \<noteq> CHR ''.'') (rev e @ CHR ''.'' # rev p) = rev e"
    using h by (subst takeWhile_append2) auto
  then show ?thesis by (simp add: fileExtension_def)
qed

lemma fileExtension_suffix: "\<exists>p. fileExtension s = [] \<and> CHR ''.'' \<notin> set s \<or> s = p @ fileExtension s"
proof (cases "CHR ''.'' \<in> set s")
  case False then show ?thesis by (simp add: fileExtension_def)
next
  case True
  let ?P = "\<lambda>c. c \<noteq> CHR ''.''"
  have "dropWhile ?P (rev s) \<noteq> []" using True by (simp add: dropWhile_eq_Nil_conv)
  moreover have "\<not> ?P (hd (dropWhile ?P (rev s)))" using calculation hd_dropWhile by blast 
  ultimately obtain q where q: "dropWhile ?P (rev s) = CHR ''.'' # q" by (cases "dropWhile ?P (rev s)") auto
  have "rev s = takeWhile ?P (rev s) @ dropWhile ?P (rev s)" by simp
  then have "rev s = takeWhile ?P (rev s) @ CHR ''.'' # q" using q by simp
  then have "rev (rev s) = rev (takeWhile ?P (rev s) @ CHR ''.'' # q)" by simp
  then have "s = rev q @ CHR ''.'' # rev (takeWhile ?P (rev s))" by simp
  then show ?thesis using True by (auto simp: fileExtension_def)
qed

lemma endsWith_iff_extension:
  assumes "CHR ''.'' \<notin> set e"
  shows "endsWith s (CHR ''.'' # e) = (fileExtension s = CHR ''.'' # e)"
proof
  assume "endsWith s (CHR ''.'' # e)"
  then obtain p where "s = p @ CHR ''.'' # e" by (auto simp: endsWith_append)
  then show "fileExtension s = CHR ''.'' # e" using assms by (simp add: fileExtension_append)
next
  assume h: "fileExtension s = CHR ''.'' # e"
  from fileExtension_suffix[of s] h obtain p where "s = p @ fileExtension s" by auto
  then show "endsWith s (CHR ''.'' # e)" using h by (auto simp: endsWith_append)
qed

text \<open>
  The chain of tests on the end of the path computes the lookup of the path's extension in
  the table, for every path.
\<close>

lemma inferMimeType_is_table_lookup: "inferMimeType path = specMimeType path"
  by (simp add: inferMimeType_def specMimeType_def mimeTable_def endsWith_iff_extension)

text \<open>
  A request is served exactly when the file it resolves to exists.
\<close>

lemma resource_served_iff_file_exists:
  "(\<exists>r. resourceProvider fs dir url = Some r) =
   existsAsFile fs (getChildFile fs dir (requestPath url))"
  by (simp add: resourceProvider_def Let_def)

text \<open>
  C6. Every request that resolves to an existing file is served, with the content of that
  file and with the MIME type the table gives for the file extension of the request path
  (the path the provider resolves, \<open>requestPath\<close>): \<open>.html\<close> gives \<open>text/html\<close>, \<open>.css\<close>
  \<open>text/css\<close>, \<open>.js\<close> \<open>application/javascript\<close>, \<open>.json\<close> \<open>application/json\<close>,
  \<open>.png\<close> \<open>image/png\<close>, \<open>.svg\<close> \<open>image/svg+xml\<close>, \<open>.woff2\<close> \<open>font/woff2\<close>, and
  every other extension, or none, \<open>application/octet-stream\<close>. Conversely every resource
  the provider returns is of a file that exists and has that MIME type.
\<close>

theorem resource_mime_type_by_extension:
  "(existsAsFile fs (getChildFile fs dir (requestPath url)) \<longrightarrow>
      resourceProvider fs dir url =
        Some \<lparr>data = loadFileAsData fs (getChildFile fs dir (requestPath url)),
              mimeType =
                (let ext = fileExtension (requestPath url)
                 in if ext = ''.html'' then ''text/html''
                    else if ext = ''.css'' then ''text/css''
                    else if ext = ''.js'' then ''application/javascript''
                    else if ext = ''.json'' then ''application/json''
                    else if ext = ''.png'' then ''image/png''
                    else if ext = ''.svg'' then ''image/svg+xml''
                    else if ext = ''.woff2'' then ''font/woff2''
                    else ''application/octet-stream'')\<rparr>) \<and>
   (\<forall>r. resourceProvider fs dir url = Some r \<longrightarrow>
      existsAsFile fs (getChildFile fs dir (requestPath url)) \<and>
      mimeType r =
        (let ext = fileExtension (requestPath url)
         in if ext = ''.html'' then ''text/html''
            else if ext = ''.css'' then ''text/css''
            else if ext = ''.js'' then ''application/javascript''
            else if ext = ''.json'' then ''application/json''
            else if ext = ''.png'' then ''image/png''
            else if ext = ''.svg'' then ''image/svg+xml''
            else if ext = ''.woff2'' then ''font/woff2''
            else ''application/octet-stream'') \<and>
      mimeType r = specMimeType (requestPath url))"
proof -
  let ?file = "getChildFile fs dir (requestPath url)"
  have t: "inferMimeType (requestPath url) =
        (let ext = fileExtension (requestPath url)
         in if ext = ''.html'' then ''text/html''
            else if ext = ''.css'' then ''text/css''
            else if ext = ''.js'' then ''application/javascript''
            else if ext = ''.json'' then ''application/json''
            else if ext = ''.png'' then ''image/png''
            else if ext = ''.svg'' then ''image/svg+xml''
            else if ext = ''.woff2'' then ''font/woff2''
            else ''application/octet-stream'')"
    unfolding inferMimeType_is_table_lookup
    by (simp add: specMimeType_def mimeTable_def Let_def)
  have served: "existsAsFile fs ?file \<Longrightarrow>
      resourceProvider fs dir url =
        Some \<lparr>data = loadFileAsData fs ?file, mimeType = inferMimeType (requestPath url)\<rparr>"
    by (simp add: resourceProvider_def Let_def)
  have returned: "resourceProvider fs dir url = Some r \<Longrightarrow>
      existsAsFile fs ?file \<and> mimeType r = inferMimeType (requestPath url)" for r
    by (auto simp: resourceProvider_def Let_def split: if_splits)
  show ?thesis
    using served returned
    by (auto simp only: t[symmetric] inferMimeType_is_table_lookup[symmetric])
qed

text \<open>
  C6 at the example file system: a script, and a file whose extension is not in the table
  and gets the default type.
\<close>

theorem resource_mime_type_by_extension_witness:
  "existsAsFile exampleFileSystem
     (getChildFile exampleFileSystem ''/p/WebUI'' (requestPath ''/app.js'')) \<and>
   fileExtension (requestPath ''/app.js'') = ''.js'' \<and>
   resourceProvider exampleFileSystem ''/p/WebUI'' ''/app.js'' =
     Some \<lparr>data = [49], mimeType = ''application/javascript''\<rparr> \<and>
   existsAsFile exampleFileSystem
     (getChildFile exampleFileSystem ''/p/WebUI'' (requestPath ''/data.bin'')) \<and>
   fileExtension (requestPath ''/data.bin'') = ''.bin'' \<and>
   resourceProvider exampleFileSystem ''/p/WebUI'' ''/data.bin'' =
     Some \<lparr>data = [49], mimeType = ''application/octet-stream''\<rparr>"
proof -
  have p: "requestPath ''/app.js'' = ''app.js''" "requestPath ''/data.bin'' = ''data.bin''"
    by (simp_all add: requestPath_def startsWith_def substring1_def)
  have x: "existsAsFile exampleFileSystem
             (getChildFile exampleFileSystem ''/p/WebUI'' (requestPath ''/app.js''))"
          "existsAsFile exampleFileSystem
             (getChildFile exampleFileSystem ''/p/WebUI'' (requestPath ''/data.bin''))"
    by (simp_all add: p exampleFileSystem_def)
  have e: "fileExtension ''app.js'' = ''.js''" "fileExtension ''data.bin'' = ''.bin''"
    by (simp_all add: fileExtension_def)
  have l: "loadFileAsData exampleFileSystem (getChildFile exampleFileSystem ''/p/WebUI'' ''app.js'') = [49]"
          "loadFileAsData exampleFileSystem (getChildFile exampleFileSystem ''/p/WebUI'' ''data.bin'') = [49]"
    by (simp_all add: exampleFileSystem_def)
  from resource_mime_type_by_extension[of exampleFileSystem "''/p/WebUI''" "''/app.js''"]
       resource_mime_type_by_extension[of exampleFileSystem "''/p/WebUI''" "''/data.bin''"]
       x
  show ?thesis by (simp add: p e l)
qed

section \<open>Properties of construction\<close>

text \<open>
  The constructor is evaluated once and for all: it fails exactly when the parameter tree
  lacks one of the fifteen parameters (a null pointer is then dereferenced), and otherwise
  returns \<open>constructedEditor\<close>.
\<close>

lemma makeRelay_row:
  "makeRelay (m, c, k) e =
     e\<lparr>relays := (relays e)(m \<mapsto> \<lparr>relayClass = c, relayName = k\<rparr>),
       lifecycle := lifecycle e @ [Constructed (RelayPtr m)]\<rparr>"
  by (simp add: makeRelay_def)

lemma fold_makeRelay_fields:
  "\<exists>rs. fold makeRelay rows e =
     e\<lparr>relays := rs,
       lifecycle := lifecycle e @ map (\<lambda>row. Constructed (RelayPtr (fst row))) rows\<rparr>"
proof (induction rows arbitrary: e)
  case Nil
  show ?case by (rule exI[of _ "relays e"]) simp
next
  case (Cons row rows)
  obtain m c k where row: "row = (m, c, k)" by (cases row) auto
  obtain rs where "fold makeRelay rows (makeRelay row e) =
     (makeRelay row e)\<lparr>relays := rs,
       lifecycle := lifecycle (makeRelay row e) @ map (\<lambda>row. Constructed (RelayPtr (fst row))) rows\<rparr>"
    using Cons.IH by blast
  then show ?case
    by (intro exI[of _ rs]) (simp add: row makeRelay_row)
qed

lemma relays_constructed:
  "relays (fold makeRelay relayConstructions (e\<lparr>relays := (\<lambda>m. None)\<rparr>)) = constructedRelays"
proof (rule ext)
  fix m
  show "relays (fold makeRelay relayConstructions (e\<lparr>relays := (\<lambda>m. None)\<rparr>)) m = constructedRelays m"
    by (cases m; simp add: relayConstructions_def makeRelay_row constructedRelays_def)
qed

lemma constructedRelays_total: "constructedRelays m \<noteq> None"
  by (cases m; simp add: constructedRelays_def relayConstructions_def)

lemma foldE_withOptionsFrom:
  "(\<forall>m \<in> set ms. relays e m \<noteq> None) \<Longrightarrow>
   foldE withOptionsFrom ms (e, opts) =
     Inr (e\<lparr>lifecycle := lifecycle e @ map Registered ms\<rparr>,
          opts\<lparr>registeredRelays := registeredRelays opts @ ms\<rparr>)"
  by (induction ms arbitrary: e opts) (auto simp: withOptionsFrom_def)

lemma foldE_makeAttachment_missing:
  "(m, c, k, r) \<in> set rows \<Longrightarrow> getParameter (processorRef e) k = None \<Longrightarrow>
   foldE makeAttachment rows e = Inl NullPointerDereference"
proof (induction rows arbitrary: e)
  case Nil then show ?case by simp
next
  case (Cons row rows)
  show ?case
  proof (cases "makeAttachment row e")
    case (Inl err) then show ?thesis by (cases err) simp
  next
    case (Inr e1)
    then have p: "processorRef e1 = processorRef e"
      by (auto simp: makeAttachment_def split: prod.splits option.splits)
    have "row \<noteq> (m, c, k, r)" using Inr Cons.prems(2)
      by (auto simp: makeAttachment_def split: prod.splits option.splits)
    then have "(m, c, k, r) \<in> set rows" using Cons.prems(1) by auto
    then show ?thesis using Cons.IH[of e1] p Cons.prems(2) Inr by simp
  qed
qed

lemma every_parameter_attached: "\<exists>m c r. (m, c, k, r) \<in> set attachmentConstructions"
  by (cases k; simp add: attachmentConstructions_def)

lemma foldE_makeAttachment:
  "(\<forall>k. getParameter (processorRef e) k \<noteq> None) \<Longrightarrow> (\<forall>m. relays e m \<noteq> None) \<Longrightarrow>
   \<exists>e'. foldE makeAttachment rows e = Inr e' \<and>
     e' = e\<lparr>attachments := attachments e',
            lifecycle := lifecycle e @ map (\<lambda>row. Constructed (AttachmentPtr (fst row))) rows\<rparr>"
proof (induction rows arbitrary: e)
  case Nil then show ?case by simp
next
  case (Cons row rows)
  obtain m c k r where row: "row = (m, c, k, r)" by (cases row) auto
  obtain v where v: "getParameter (processorRef e) k = Some v" using Cons.prems(1) by auto
  obtain rel where rel: "relays e r = Some rel" using Cons.prems(2) by auto
  let ?e1 = "e\<lparr>attachments := (attachments e)(m \<mapsto> \<lparr>attachmentClass = c, attachedParameter = k, attachedRelay = r\<rparr>),
                lifecycle := lifecycle e @ [Constructed (AttachmentPtr m)]\<rparr>"
  have s: "makeAttachment row e = Inr ?e1" by (simp add: makeAttachment_def row v rel)
  have "\<exists>e'. foldE makeAttachment rows ?e1 = Inr e' \<and>
     e' = ?e1\<lparr>attachments := attachments e',
            lifecycle := lifecycle ?e1 @ map (\<lambda>row. Constructed (AttachmentPtr (fst row))) rows\<rparr>"
    using Cons.prems by (intro Cons.IH) auto
  then obtain e' where e': "foldE makeAttachment rows ?e1 = Inr e'"
     "e' = ?e1\<lparr>attachments := attachments e',
            lifecycle := lifecycle ?e1 @ map (\<lambda>row. Constructed (AttachmentPtr (fst row))) rows\<rparr>" by blast
  have "e' = e\<lparr>attachments := attachments e',
            lifecycle := lifecycle e @ map (\<lambda>row. Constructed (AttachmentPtr (fst row))) (row # rows)\<rparr>"
    by (subst e'(2)) (simp add: row)
  then show ?case using s e'(1) by simp
qed

lemma foldE_makeAttachment_attachments:
  "foldE makeAttachment rows e = Inr e' \<Longrightarrow>
   attachments e' =
     attachments e ++
       map_of (rev (map (\<lambda>(m, c, k, r).
                      (m, \<lparr>attachmentClass = c, attachedParameter = k, attachedRelay = r\<rparr>)) rows))"
proof (induction rows arbitrary: e)
  case Nil then show ?case by simp
next
  case (Cons row rows)
  obtain m c k r where row: "row = (m, c, k, r)" by (cases row) auto
  obtain e1 where e1: "makeAttachment row e = Inr e1" and rest: "foldE makeAttachment rows e1 = Inr e'"
    using Cons.prems by (auto split: sum.splits)
  have a1: "attachments e1 = (attachments e)(m \<mapsto> \<lparr>attachmentClass = c, attachedParameter = k, attachedRelay = r\<rparr>)"
    using e1 by (auto simp: makeAttachment_def row split: option.splits)
  let ?f = "\<lambda>(m, c, k, r). (m, \<lparr>attachmentClass = c, attachedParameter = k, attachedRelay = r\<rparr>)"
  let ?a = "\<lparr>attachmentClass = c, attachedParameter = k, attachedRelay = r\<rparr>"
  have "attachments e' = attachments e1 ++ map_of (rev (map ?f rows))"
    by (rule Cons.IH[OF rest])
  also have "attachments e1 = attachments e ++ [m \<mapsto> ?a]"
    by (simp only: a1 map_add_upd map_add_empty)
  also have "(attachments e ++ [m \<mapsto> ?a]) ++ map_of (rev (map ?f rows)) =
             attachments e ++ ([m \<mapsto> ?a] ++ map_of (rev (map ?f rows)))"
    by (simp only: map_add_assoc)
  also have "[m \<mapsto> ?a] ++ map_of (rev (map ?f rows)) = map_of (rev (map ?f (row # rows)))"
    by (simp add: row)
  finally show ?case .
qed

lemma attachments_constructed:
  assumes "attachments e = (\<lambda>m. None)"
    and "foldE makeAttachment attachmentConstructions e = Inr e'"
  shows "attachments e' = constructedAttachments"
proof (rule ext)
  fix m
  show "attachments e' m = constructedAttachments m"
    unfolding foldE_makeAttachment_attachments[OF assms(2)] assms(1)
    by (cases m; simp add: constructedAttachments_def attachmentConstructions_def map_add_def)
qed

lemma setupWebView_result:
  assumes "relays e = constructedRelays"
  shows "setupWebView env e =
     Inr (e\<lparr>resourcesDir := findResourcesDir (fileSystem env),
           lifecycle := lifecycle e @ map Registered relayRegistrations @ [Constructed WebViewPtr],
           webView := Some
             \<lparr>options = \<lparr>resourceProviderInstalled = True,
                    registeredRelays = relayRegistrations,
                    eventListeners = constructedListeners env\<rparr>,
              browserVisible = True,
              currentURL = (if OXIDE_DEV_MODE env then ''http://localhost:5173''
                       else resourceProviderRoot env),
              bounds = (0, 0),
              frontendEvents = []\<rparr>\<rparr>)"
proof -
  let ?e = "e\<lparr>resourcesDir := findResourcesDir (fileSystem env)\<rparr>"
  have "\<forall>m \<in> set relayRegistrations. relays ?e m \<noteq> None"
    by (simp add: assms constructedRelays_total)
  from foldE_withOptionsFrom[OF this]
  show ?thesis
    by (simp add: setupWebView_def withEventListener_def constructedListeners_def)
qed

lemma constructor_result:
  "OxideAudioProcessorEditor env p =
     (if \<forall>k. getParameter p k \<noteq> None then Inr (constructedEditor env p)
      else Inl NullPointerDereference)"
proof -
  let ?e0 = "(initialEditor p)\<lparr>editorSize := (850, 550)\<rparr>"
  obtain rs where rs: "fold makeRelay relayConstructions ?e0 =
     ?e0\<lparr>relays := rs, lifecycle := lifecycle ?e0 @ map (\<lambda>row. Constructed (RelayPtr (fst row))) relayConstructions\<rparr>"
    using fold_makeRelay_fields by blast
  have "rs = relays (fold makeRelay relayConstructions ?e0)" by (subst rs) simp
  also have "\<dots> = constructedRelays" using relays_constructed[of "?e0"] by (simp add: initialEditor_def)
  finally have rs_eq: "rs = constructedRelays" .
  let ?e1 = "?e0\<lparr>relays := constructedRelays, lifecycle := map (\<lambda>row. Constructed (RelayPtr (fst row))) relayConstructions\<rparr>"
  have e1: "fold makeRelay relayConstructions ?e0 = ?e1"
    using rs by (simp add: rs_eq initialEditor_def)
  obtain e2 where e2: "setupWebView env ?e1 = Inr e2"
     and e2_def: "e2 = ?e1\<lparr>resourcesDir := findResourcesDir (fileSystem env),
           lifecycle := lifecycle ?e1 @ map Registered relayRegistrations @ [Constructed WebViewPtr],
           webView := Some
             \<lparr>options = \<lparr>resourceProviderInstalled = True,
                    registeredRelays = relayRegistrations,
                    eventListeners = constructedListeners env\<rparr>,
              browserVisible = True,
              currentURL = (if OXIDE_DEV_MODE env then ''http://localhost:5173''
                       else resourceProviderRoot env),
              bounds = (0, 0),
              frontendEvents = []\<rparr>\<rparr>"
    using setupWebView_result[of ?e1 env] by simp
  have p2: "processorRef e2 = p" and r2: "relays e2 = constructedRelays" and a2: "attachments e2 = (\<lambda>m. None)"
    by (simp_all add: e2_def initialEditor_def)
  have unfold: "OxideAudioProcessorEditor env p =
      (case foldE makeAttachment attachmentConstructions e2 of
                Inl err \<Rightarrow> Inl err
              | Inr e \<Rightarrow> Inr (e\<lparr>timerHz := Some 60, lifecycle := lifecycle e @ [TimerStarted]\<rparr>))"
    unfolding OxideAudioProcessorEditor_def Let_def e1 e2 by simp
  show ?thesis
  proof (cases "\<forall>k. getParameter p k \<noteq> None")
    case True
    have "\<exists>e'. foldE makeAttachment attachmentConstructions e2 = Inr e' \<and>
       e' = e2\<lparr>attachments := attachments e',
            lifecycle := lifecycle e2 @ map (\<lambda>row. Constructed (AttachmentPtr (fst row))) attachmentConstructions\<rparr>"
      by (rule foldE_makeAttachment) (simp_all add: p2 r2 True constructedRelays_total)
    then obtain e3 where e3: "foldE makeAttachment attachmentConstructions e2 = Inr e3"
      and e3_def: "e3 = e2\<lparr>attachments := attachments e3,
            lifecycle := lifecycle e2 @ map (\<lambda>row. Constructed (AttachmentPtr (fst row))) attachmentConstructions\<rparr>"
      by blast
    have a3: "attachments e3 = constructedAttachments"
      by (rule attachments_constructed[OF a2 e3])
    have "e3\<lparr>timerHz := Some 60, lifecycle := lifecycle e3 @ [TimerStarted]\<rparr> = constructedEditor env p"
      by (subst (1 2) e3_def) (simp add: a3 e2_def initialEditor_def constructedEditor_def constructionHistory_def)
    then show ?thesis using True by (simp add: unfold e3)
  next
    case False
    then obtain k where k: "getParameter p k = None" by auto
    obtain m c r where "(m, c, k, r) \<in> set attachmentConstructions"
      using every_parameter_attached by blast
    then have "foldE makeAttachment attachmentConstructions e2 = Inl NullPointerDereference"
      by (rule foldE_makeAttachment_missing) (simp add: p2 k)
    then show ?thesis using False by (simp add: unfold)
  qed
qed

lemma constructor_Inr:
  "OxideAudioProcessorEditor env p = Inr e \<Longrightarrow> e = constructedEditor env p"
  by (simp add: constructor_result split: if_splits)

lemma history_eval:
  "constructionHistory =
     map (\<lambda>m. Constructed (RelayPtr m)) relayMembers @ map Registered relayMembers
       @ [Constructed WebViewPtr] @ map (\<lambda>m. Constructed (AttachmentPtr m)) attachmentMembers
       @ [TimerStarted]"
  by (simp add: constructionHistory_def relayConstructions_def relayRegistrations_def
        attachmentConstructions_def relayMembers_def attachmentMembers_def)

lemma relayMembers_all: "m \<in> set relayMembers"
  by (cases m; simp add: relayMembers_def)

lemma attachmentMembers_all: "a \<in> set attachmentMembers"
  by (cases a; simp add: attachmentMembers_def)

lemma takeWhile_not_in:
  "b \<notin> set xs \<Longrightarrow> takeWhile (\<lambda>x. x \<noteq> b) (xs @ ys) = xs @ takeWhile (\<lambda>x. x \<noteq> b) ys"
  by (rule takeWhile_append2) auto

lemma precedes_appendI:
  "a \<in> set xs \<Longrightarrow> b \<notin> set xs \<Longrightarrow> b \<in> set ys \<Longrightarrow> precedes a b (xs @ ys)"
  by (simp add: precedes_def takeWhile_not_in)

lemma precedes_skip:
  "b \<notin> set xs \<Longrightarrow> precedes a b ys \<Longrightarrow> precedes a b (xs @ ys)"
  by (simp add: precedes_def takeWhile_not_in)

lemma relay_constructed_before_registered: "precedes (Constructed (RelayPtr m)) (Registered m) constructionHistory"
  unfolding history_eval
  by (rule precedes_appendI) (auto simp: relayMembers_all)

lemma relay_registered_before_view: "precedes (Registered m) (Constructed WebViewPtr) constructionHistory"
  unfolding history_eval
  apply (rule precedes_skip, force)
  apply (rule precedes_appendI)
    apply (auto simp: relayMembers_all)
  done

lemma view_before_attachment: "precedes (Constructed WebViewPtr) (Constructed (AttachmentPtr a)) constructionHistory"
  unfolding history_eval
  apply (rule precedes_skip, force)
  apply (rule precedes_skip, force)
  apply (rule precedes_appendI)
    apply (auto simp: attachmentMembers_all)
  done

lemma relay_registered_before_attachment: "precedes (Registered m) (Constructed (AttachmentPtr a)) constructionHistory"
  unfolding history_eval
  apply (rule precedes_skip, force)
  apply (simp only: append_assoc[symmetric])
  apply (simp only: append_assoc[of "map Registered relayMembers"])
  apply (rule precedes_appendI)
    apply (auto simp: attachmentMembers_all relayMembers_all)
  done

lemma constructionHistory_distinct: "distinct constructionHistory"
  by (simp add: constructionHistory_def relayConstructions_def relayRegistrations_def
        attachmentConstructions_def)

lemma relay_of_key:
  "(\<exists>r. constructedRelays m = Some r \<and> relayName r = k) =
   ((m, k) \<in> set (map (\<lambda>(m, c, k). (m, k)) relayConstructions))"
  by (cases m; cases k; simp add: constructedRelays_def relayConstructions_def)

lemma one_relay: "\<exists>!m. \<exists>r. constructedRelays m = Some r \<and> relayName r = k"
  unfolding relay_of_key
  by (cases k; simp add: relayConstructions_def)

lemma attachment_of_key:
  "(\<exists>t. constructedAttachments a = Some t \<and> attachedParameter t = k) =
   ((a, k) \<in> set (map (\<lambda>(m, c, k, r). (m, k)) attachmentConstructions))"
  by (cases a; cases k; simp add: constructedAttachments_def attachmentConstructions_def)

lemma one_attachment: "\<exists>!a. \<exists>t. constructedAttachments a = Some t \<and> attachedParameter t = k"
  unfolding attachment_of_key
  by (cases k; simp add: attachmentConstructions_def)

lemma attachment_binds:
  "constructedAttachments a = Some t \<Longrightarrow>
   \<exists>r. constructedRelays (attachedRelay t) = Some r \<and> relayName r = attachedParameter t \<and>
       (attachmentClass t = WebToggleButtonParameterAttachment) = (relayClass r = WebToggleButtonRelay)"
  by (cases a; auto simp add: constructedAttachments_def attachmentConstructions_def
        constructedRelays_def relayConstructions_def)

lemma relay_class:
  "constructedRelays m = Some r \<Longrightarrow> (relayClass r = WebToggleButtonRelay) = (relayName r = bypass)"
  by (cases m; auto simp add: constructedRelays_def relayConstructions_def)

lemma card_keys: "card (UNIV :: ParameterID set) = 15"
proof -
  have "(UNIV :: ParameterID set) = set [bitcrush, downsample, noise, crackle, wobble, dropout, saturation, age,
     filterCutoff, filterRes, filterDrive, mode, mix, output_id, bypass]"
    (is "_ = set ?xs")
  proof -
    have "\<And>k. k \<in> set ?xs" subgoal for k by (cases k; simp) done
    then show ?thesis by blast
  qed
  moreover have "distinct ?xs" by simp
  ultimately show ?thesis using distinct_card[of ?xs] by simp
qed

section \<open>The life of an editor leaves the parameter bridge alone\<close>

lemma webViewEmit_bridge: "webViewEmit n v e = Inr e' \<Longrightarrow> bridge e' = bridge e"
  by (auto simp: webViewEmit_def bridge_def emitEventIfBrowserIsVisible_def split: option.splits)

lemma timerCallback_bridge: "bridge (snd (timerCallback e)) = bridge e"
  by (auto simp: timerCallback_def bridge_def emitEventIfBrowserIsVisible_def Let_def split: option.splits)

lemma handleActivateLicense_bridge: "bridge (handleActivateLicense env d e) = bridge e"
  by (auto simp: handleActivateLicense_def bridge_def Let_def split: option.splits)

lemma handleDeactivateLicense_bridge: "bridge (handleDeactivateLicense d e) = bridge e"
  by (auto simp: handleDeactivateLicense_def bridge_def split: option.splits)

lemma invokeListener_bridge: "invokeListener env l d e = Inr e' \<Longrightarrow> bridge e' = bridge e"
  by (cases l)
     (auto simp: getActivationStatusListener_def Let_def handleActivateLicense_bridge
        handleDeactivateLicense_bridge dest: webViewEmit_bridge)

lemma foldE_bridge:
  assumes "\<And>x s s'. f x s = Inr s' \<Longrightarrow> bridge s' = bridge s"
  shows "foldE f xs s = Inr s' \<Longrightarrow> bridge s' = bridge s"
proof (induction xs arbitrary: s)
  case Nil then show ?case by simp
next
  case (Cons x xs)
  then obtain s1 where "f x s = Inr s1" "foldE f xs s1 = Inr s'"
    by (auto split: sum.splits)
  then show ?case using Cons.IH[of s1] assms[of x s s1] by simp
qed

lemma runMessage_bridge: "runMessage env m e = Inr e' \<Longrightarrow> bridge e' = bridge e"
  by (cases m) (auto simp: Let_def dest: webViewEmit_bridge)

lemma step_bridge: "step env a e = Inr e' \<Longrightarrow> bridge e' = bridge e"
proof (cases a)
  case TimerTick
  then show "step env a e = Inr e' \<Longrightarrow> bridge e' = bridge e"
    using timerCallback_bridge[of e] by auto
next
  case (BrowserEvent name d)
  assume "step env a e = Inr e'"
  then show "bridge e' = bridge e" using BrowserEvent
    by (auto simp: browserEvent_def split: option.splits
          elim!: foldE_bridge[rotated] dest: invokeListener_bridge)
next
  case (ActivateCompleted st info)
  then show "step env a e = Inr e' \<Longrightarrow> bridge e' = bridge e"
    by (auto simp: activateCallback_def bridge_def)
next
  case (DeactivateCompleted st)
  then show "step env a e = Inr e' \<Longrightarrow> bridge e' = bridge e"
    by (auto simp: deactivateCallback_def bridge_def)
next
  case DispatchMessage
  assume "step env a e = Inr e'"
  then show "bridge e' = bridge e" using DispatchMessage
    by (auto simp: dispatchMessage_def bridge_def split: list.splits dest!: runMessage_bridge)
next
  case Resized
  then show "step env a e = Inr e' \<Longrightarrow> bridge e' = bridge e"
    by (auto simp: resized_def bridge_def split: option.splits)
next
  case (SetBrowserVisible b)
  then show "step env a e = Inr e' \<Longrightarrow> bridge e' = bridge e"
    by (auto simp: bridge_def split: option.splits)
qed

lemma run_bridge: "run env acts e = Inr e' \<Longrightarrow> bridge e' = bridge e"
  unfolding run_def by (rule foldE_bridge[of "step env"]) (rule step_bridge)

lemma bridge_webView: "bridge e' = bridge e \<Longrightarrow> (webView e' = None) = (webView e = None)"
  by (auto simp: bridge_def)

lemma invokeListener_total: "webView e \<noteq> None \<Longrightarrow> \<exists>e'. invokeListener env l d e = Inr e'"
  by (cases l) (auto simp: getActivationStatusListener_def Let_def webViewEmit_def)

lemma foldE_total:
  assumes "\<And>x s. webView s \<noteq> None \<Longrightarrow> \<exists>s'. f x s = Inr s'"
    and "\<And>x s s'. f x s = Inr s' \<Longrightarrow> bridge s' = bridge s"
  shows "webView s \<noteq> None \<Longrightarrow> \<exists>s'. foldE f xs s = Inr s'"
proof (induction xs arbitrary: s)
  case Nil then show ?case by simp
next
  case (Cons x xs)
  obtain s1 where s1: "f x s = Inr s1" using assms(1)[OF Cons.prems] by blast
  have "(webView s1 = None) = (webView s = None)"
    by (rule bridge_webView[OF assms(2)[OF s1]])
  then have "webView s1 \<noteq> None" using Cons.prems by simp
  then show ?case using Cons.IH[of s1] s1 by simp
qed

lemma step_total: "webView e \<noteq> None \<Longrightarrow> \<exists>e'. step env a e = Inr e'"
proof (cases a)
  case (BrowserEvent name d)
  assume w: "webView e \<noteq> None"
  have "\<exists>e'. foldE (\<lambda>l. invokeListener env l d) ls e = Inr e'" for ls
    by (rule foldE_total[where f = "\<lambda>l. invokeListener env l d", OF _ _ w])
       (auto intro: invokeListener_total invokeListener_bridge)
  then show ?thesis using BrowserEvent w by (auto simp: browserEvent_def)
next
  case DispatchMessage
  assume w: "webView e \<noteq> None"
  show ?thesis
  proof (cases "messageQueue e")
    case Nil then show ?thesis using DispatchMessage by (simp add: dispatchMessage_def)
  next
    case (Cons m ms)
    then show ?thesis using DispatchMessage w
      by (cases m) (auto simp: dispatchMessage_def Let_def webViewEmit_def)
  qed
qed auto

lemma run_total: "webView e \<noteq> None \<Longrightarrow> \<exists>e'. run env acts e = Inr e'"
  unfolding run_def by (rule foldE_total[of "step env"]) (auto intro: step_total step_bridge)

section \<open>Destruction order\<close>

lemma fold_destroy_relays:
  "distinct ms \<Longrightarrow> \<forall>m \<in> set ms. relays e m \<noteq> None \<Longrightarrow>
   fold destroyMember (map RelayPtr ms) e =
     e\<lparr>relays := (\<lambda>m. if m \<in> set ms then None else relays e m),
       lifecycle := lifecycle e @ map (\<lambda>m. Destroyed (RelayPtr m)) ms\<rparr>"
proof (induction ms arbitrary: e)
  case Nil then show ?case by simp
next
  case (Cons m ms)
  let ?e1 = "e\<lparr>relays := (relays e)(m := None), lifecycle := lifecycle e @ [Destroyed (RelayPtr m)]\<rparr>"
  have d: "destroyMember (RelayPtr m) e = ?e1" using Cons.prems by auto
  have "fold destroyMember (map RelayPtr ms) ?e1 =
     ?e1\<lparr>relays := (\<lambda>x. if x \<in> set ms then None else relays ?e1 x),
       lifecycle := lifecycle ?e1 @ map (\<lambda>m. Destroyed (RelayPtr m)) ms\<rparr>"
    using Cons.prems by (intro Cons.IH) auto
  moreover have "(\<lambda>x. if x \<in> set ms then None else relays ?e1 x) =
                 (\<lambda>x. if x \<in> set (m # ms) then None else relays e x)"
    by (auto simp: fun_eq_iff)
  ultimately have "fold destroyMember (map RelayPtr ms) ?e1 =
     e\<lparr>relays := (\<lambda>x. if x \<in> set (m # ms) then None else relays e x),
       lifecycle := lifecycle e @ map (\<lambda>m. Destroyed (RelayPtr m)) (m # ms)\<rparr>"
    by simp
  moreover have "fold destroyMember (map RelayPtr (m # ms)) e =
                 fold destroyMember (map RelayPtr ms) ?e1"
    by (simp del: destroyMember.simps add: d)
  ultimately show ?case by (simp only:)
qed

lemma fold_destroy_attachments:
  "distinct ms \<Longrightarrow> \<forall>m \<in> set ms. attachments e m \<noteq> None \<Longrightarrow>
   fold destroyMember (map AttachmentPtr ms) e =
     e\<lparr>attachments := (\<lambda>m. if m \<in> set ms then None else attachments e m),
       lifecycle := lifecycle e @ map (\<lambda>m. Destroyed (AttachmentPtr m)) ms\<rparr>"
proof (induction ms arbitrary: e)
  case Nil then show ?case by simp
next
  case (Cons m ms)
  let ?e1 = "e\<lparr>attachments := (attachments e)(m := None), lifecycle := lifecycle e @ [Destroyed (AttachmentPtr m)]\<rparr>"
  have d: "destroyMember (AttachmentPtr m) e = ?e1" using Cons.prems by auto
  have "fold destroyMember (map AttachmentPtr ms) ?e1 =
     ?e1\<lparr>attachments := (\<lambda>x. if x \<in> set ms then None else attachments ?e1 x),
       lifecycle := lifecycle ?e1 @ map (\<lambda>m. Destroyed (AttachmentPtr m)) ms\<rparr>"
    using Cons.prems by (intro Cons.IH) auto
  moreover have "(\<lambda>x. if x \<in> set ms then None else attachments ?e1 x) =
                 (\<lambda>x. if x \<in> set (m # ms) then None else attachments e x)"
    by (auto simp: fun_eq_iff)
  ultimately have "fold destroyMember (map AttachmentPtr ms) ?e1 =
     e\<lparr>attachments := (\<lambda>x. if x \<in> set (m # ms) then None else attachments e x),
       lifecycle := lifecycle e @ map (\<lambda>m. Destroyed (AttachmentPtr m)) (m # ms)\<rparr>"
    by simp
  moreover have "fold destroyMember (map AttachmentPtr (m # ms)) e =
                 fold destroyMember (map AttachmentPtr ms) ?e1"
    by (simp del: destroyMember.simps add: d)
  ultimately show ?case by (simp only:)
qed

lemma destructionOrder_eq:
  assumes "webView e \<noteq> None" and "\<forall>m. relays e m \<noteq> None" and "\<forall>a. attachments e a \<noteq> None"
  shows "destructionOrder e =
     [TimerStopped, Destroyed VisualizerTimerMember, Destroyed ResourcesDirMember, Destroyed WebViewPtr]
       @ map (\<lambda>a. Destroyed (AttachmentPtr a)) (rev attachmentMembers)
       @ map (\<lambda>m. Destroyed (RelayPtr m)) (rev relayMembers)"
proof -
  obtain w where w: "webView e = Some w" using assms(1) by auto
  let ?e1 = "e\<lparr>timerHz := None, lifecycle := lifecycle e @ [TimerStopped]\<rparr>"
  let ?e2 = "?e1\<lparr>webView := None,
     lifecycle := lifecycle e @ [TimerStopped, Destroyed VisualizerTimerMember, Destroyed ResourcesDirMember, Destroyed WebViewPtr]\<rparr>"
  have s1: "fold destroyMember [VisualizerTimerMember, ResourcesDirMember, WebViewPtr] ?e1 = ?e2"
    by (simp add: w)
  have da: "distinct (rev attachmentMembers)" by (simp add: attachmentMembers_def)
  have dr: "distinct (rev relayMembers)" by (simp add: relayMembers_def)
  have s2: "fold destroyMember (map AttachmentPtr (rev attachmentMembers)) ?e2 =
     ?e2\<lparr>attachments := (\<lambda>m. if m \<in> set (rev attachmentMembers) then None else attachments ?e2 m),
       lifecycle := lifecycle ?e2 @ map (\<lambda>m. Destroyed (AttachmentPtr m)) (rev attachmentMembers)\<rparr>"
    (is "_ = ?e3")
    by (rule fold_destroy_attachments[OF da]) (simp add: assms(3))
  have s3: "fold destroyMember (map RelayPtr (rev relayMembers)) ?e3 =
     ?e3\<lparr>relays := (\<lambda>m. if m \<in> set (rev relayMembers) then None else relays ?e3 m),
       lifecycle := lifecycle ?e3 @ map (\<lambda>m. Destroyed (RelayPtr m)) (rev relayMembers)\<rparr>"
    (is "_ = ?e4")
    by (rule fold_destroy_relays[OF dr]) (simp add: assms(2))
  have order: "rev memberDeclarations =
      [VisualizerTimerMember, ResourcesDirMember, WebViewPtr] @ map AttachmentPtr (rev attachmentMembers)
        @ map RelayPtr (rev relayMembers) @ [ProcessorRefMember]"
    by (simp add: memberDeclarations_def rev_map)
  have "destructor e = ?e4"
    unfolding destructor_def Let_def order fold_append comp_def s1 s2 s3 by simp
  then show ?thesis by (simp add: destructionOrder_def)
qed

section \<open>The parameter bridge: claims\<close>

lemma example_constructs:
  "OxideAudioProcessorEditor exampleEnvironment exampleProcessor = Inr exampleEditor"
  by (simp add: constructor_result exampleEditor_def exampleProcessor_def)

lemma constructedAttachments_total: "constructedAttachments a \<noteq> None"
  by (cases a; simp add: constructedAttachments_def attachmentConstructions_def)

lemma constructed_bridge:
  assumes "OxideAudioProcessorEditor env p = Inr e0" and "run env acts e0 = Inr e"
  shows "relays e = constructedRelays" and "attachments e = constructedAttachments"
    and "webView e \<noteq> None" and "lifecycle e = constructionHistory"
proof -
  have e0: "e0 = constructedEditor env p" by (rule constructor_Inr[OF assms(1)])
  have "bridge e = bridge e0" by (rule run_bridge[OF assms(2)])
  then show "relays e = constructedRelays" and "attachments e = constructedAttachments"
    and "webView e \<noteq> None" and "lifecycle e = constructionHistory"
    by (auto simp: bridge_def e0 constructedEditor_def)
qed

text \<open>
  C2. There are fifteen parameter keys. In every editor the constructor returns, and
  after any sequence of events in its life (which never fails), each key has exactly one
  relay and exactly one attachment, so no key has two of either; every attachment binds
  the parameter of its key to the relay of the same key; and the relay of \<open>bypass\<close> is
  the one toggle relay, the other fourteen being slider relays.
\<close>

theorem one_relay_and_one_attachment_per_key:
  assumes "OxideAudioProcessorEditor env p = Inr e0"
  shows "card (UNIV :: ParameterID set) = 15 \<and>
    (\<exists>e. run env acts e0 = Inr e \<and>
       (\<forall>k. \<exists>!m. \<exists>r. relays e m = Some r \<and> relayName r = k) \<and>
       (\<forall>k. \<exists>!a. \<exists>t. attachments e a = Some t \<and> attachedParameter t = k) \<and>
       (\<forall>a t. attachments e a = Some t \<longrightarrow>
          (\<exists>r. relays e (attachedRelay t) = Some r \<and> relayName r = attachedParameter t)) \<and>
       (\<forall>m r. relays e m = Some r \<longrightarrow>
          (relayClass r = WebToggleButtonRelay) = (relayName r = bypass)))"
proof -
  have "e0 = constructedEditor env p" by (rule constructor_Inr[OF assms])
  then have "webView e0 \<noteq> None" by (simp add: constructedEditor_def)
  then obtain e where e: "run env acts e0 = Inr e" using run_total by blast
  note b = constructed_bridge[OF assms e]
  have "\<forall>k. \<exists>!m. \<exists>r. relays e m = Some r \<and> relayName r = k"
    by (simp only: b one_relay) simp
  moreover have "\<forall>k. \<exists>!a. \<exists>t. attachments e a = Some t \<and> attachedParameter t = k"
    by (simp only: b one_attachment) simp
  moreover have "\<forall>a t. attachments e a = Some t \<longrightarrow>
          (\<exists>r. relays e (attachedRelay t) = Some r \<and> relayName r = attachedParameter t)"
    unfolding b using attachment_binds by blast
  moreover have "\<forall>m r. relays e m = Some r \<longrightarrow>
          (relayClass r = WebToggleButtonRelay) = (relayName r = bypass)"
    unfolding b using relay_class by blast
  ultimately show ?thesis using e card_keys by blast
qed

text \<open>C2 at the example plugin, after a tick, a licence request, its completion and a dispatch.\<close>

theorem one_relay_and_one_attachment_per_key_witness:
  "OxideAudioProcessorEditor exampleEnvironment exampleProcessor = Inr exampleEditor \<and>
   card (UNIV :: ParameterID set) = 15 \<and>
    (\<exists>e. run exampleEnvironment
            [TimerTick, BrowserEvent ''activateLicense'' (VObject [(''code'', VString ''K'')]),
             ActivateCompleted Valid exampleInfo, DispatchMessage, SetBrowserVisible False]
            exampleEditor = Inr e \<and>
       (\<forall>k. \<exists>!m. \<exists>r. relays e m = Some r \<and> relayName r = k) \<and>
       (\<forall>k. \<exists>!a. \<exists>t. attachments e a = Some t \<and> attachedParameter t = k) \<and>
       (\<forall>a t. attachments e a = Some t \<longrightarrow>
          (\<exists>r. relays e (attachedRelay t) = Some r \<and> relayName r = attachedParameter t)) \<and>
       (\<forall>m r. relays e m = Some r \<longrightarrow>
          (relayClass r = WebToggleButtonRelay) = (relayName r = bypass)))"
  using one_relay_and_one_attachment_per_key[OF example_constructs] example_constructs
  by simp

text \<open>
  C3. In the history of a successful construction every relay is constructed, then
  registered with the options of the browser view, before the view is constructed; every
  attachment is constructed after the view; and the relay of every attachment was
  registered before that attachment was constructed and is among the relays registered
  with the existing view.
\<close>

theorem relays_registered_before_view_before_attachments:
  assumes "OxideAudioProcessorEditor env p = Inr e"
  shows "(\<forall>m. precedes (Constructed (RelayPtr m)) (Registered m) (lifecycle e) \<and>
              precedes (Registered m) (Constructed WebViewPtr) (lifecycle e)) \<and>
         (\<forall>a. precedes (Constructed WebViewPtr) (Constructed (AttachmentPtr a)) (lifecycle e)) \<and>
         (\<forall>a t. attachments e a = Some t \<longrightarrow>
            precedes (Registered (attachedRelay t)) (Constructed (AttachmentPtr a)) (lifecycle e) \<and>
            (\<exists>w. webView e = Some w \<and> attachedRelay t \<in> set (registeredRelays (options w)))) \<and>
         distinct (lifecycle e)"
proof -
  have e: "e = constructedEditor env p" by (rule constructor_Inr[OF assms])
  have l: "lifecycle e = constructionHistory" by (simp add: e constructedEditor_def)
  have "\<exists>w. webView e = Some w \<and> m \<in> set (registeredRelays (options w))" for m
    using relayMembers_all[of m]
    by (simp add: e constructedEditor_def relayRegistrations_def relayMembers_def)
  then show ?thesis
    unfolding l using relay_constructed_before_registered relay_registered_before_view
      view_before_attachment relay_registered_before_attachment constructionHistory_distinct
    by blast
qed

text \<open>C3 at the example plugin, for the relay and the attachment of \<open>mix\<close>.\<close>

theorem relays_registered_before_view_before_attachments_witness:
  "OxideAudioProcessorEditor exampleEnvironment exampleProcessor = Inr exampleEditor \<and>
   precedes (Constructed (RelayPtr mixRelay)) (Registered mixRelay) (lifecycle exampleEditor) \<and>
   precedes (Registered mixRelay) (Constructed WebViewPtr) (lifecycle exampleEditor) \<and>
   precedes (Constructed WebViewPtr) (Constructed (AttachmentPtr mixAttachment))
     (lifecycle exampleEditor) \<and>
   attachments exampleEditor mixAttachment =
     Some \<lparr>attachmentClass = WebSliderParameterAttachment, attachedParameter = mix,
           attachedRelay = mixRelay\<rparr> \<and>
   precedes (Registered mixRelay) (Constructed (AttachmentPtr mixAttachment))
     (lifecycle exampleEditor)"
proof -
  have a: "attachments exampleEditor mixAttachment =
     Some \<lparr>attachmentClass = WebSliderParameterAttachment, attachedParameter = mix,
           attachedRelay = mixRelay\<rparr>"
    by (simp add: exampleEditor_def constructedEditor_def constructedAttachments_def
          attachmentConstructions_def)
  note T = relays_registered_before_view_before_attachments[OF example_constructs]
  let ?t = "\<lparr>attachmentClass = WebSliderParameterAttachment, attachedParameter = mix,
           attachedRelay = mixRelay\<rparr>"
  from T have "attachments exampleEditor mixAttachment = Some ?t \<longrightarrow>
     precedes (Registered (attachedRelay ?t)) (Constructed (AttachmentPtr mixAttachment))
       (lifecycle exampleEditor)"
    by blast
  with a have "precedes (Registered mixRelay) (Constructed (AttachmentPtr mixAttachment))
       (lifecycle exampleEditor)"
    by simp
  with T a example_constructs show ?thesis by blast
qed

text \<open>
  C4, as amended. When a constructed editor is destroyed, at any point of its life, the
  timer is stopped first, then the browser view is released, then all attachments are
  destroyed, and last all relays: members go in the reverse order of their declaration,
  and the view is declared after the relays and the attachments. Every relay and every
  attachment outlives the browser view.
\<close>

theorem view_released_before_attachments_before_relays:
  assumes "OxideAudioProcessorEditor env p = Inr e0" and "run env acts e0 = Inr e"
  shows "precedes TimerStopped (Destroyed WebViewPtr) (destructionOrder e) \<and>
         (\<forall>a. precedes (Destroyed WebViewPtr) (Destroyed (AttachmentPtr a)) (destructionOrder e)) \<and>
         (\<forall>m. precedes (Destroyed WebViewPtr) (Destroyed (RelayPtr m)) (destructionOrder e)) \<and>
         (\<forall>a m. precedes (Destroyed (AttachmentPtr a)) (Destroyed (RelayPtr m)) (destructionOrder e)) \<and>
         distinct (destructionOrder e)"
proof -
  note b = constructed_bridge[OF assms]
  have d: "destructionOrder e =
     [TimerStopped, Destroyed VisualizerTimerMember, Destroyed ResourcesDirMember, Destroyed WebViewPtr]
       @ map (\<lambda>a. Destroyed (AttachmentPtr a)) (rev attachmentMembers)
       @ map (\<lambda>m. Destroyed (RelayPtr m)) (rev relayMembers)"
    by (rule destructionOrder_eq) (simp_all add: b constructedRelays_total constructedAttachments_total)
  have 1: "precedes TimerStopped (Destroyed WebViewPtr) (destructionOrder e)"
    unfolding d by (simp add: precedes_def)
  have 2: "precedes (Destroyed WebViewPtr) (Destroyed (AttachmentPtr a)) (destructionOrder e)" for a
    unfolding d by (rule precedes_appendI) (auto simp: attachmentMembers_all)
  have 3: "precedes (Destroyed WebViewPtr) (Destroyed (RelayPtr m)) (destructionOrder e)" for m
    unfolding d by (rule precedes_appendI) (auto simp: relayMembers_all)
  have 4: "precedes (Destroyed (AttachmentPtr a)) (Destroyed (RelayPtr m)) (destructionOrder e)" for a m
    unfolding d
    apply (rule precedes_skip, force)
    apply (rule precedes_appendI)
      apply (auto simp: attachmentMembers_all relayMembers_all)
    done
  have 5: "distinct (destructionOrder e)"
    unfolding d by (simp add: attachmentMembers_def relayMembers_def)
  from 1 2 3 4 5 show ?thesis by blast
qed

lemma example_destructionOrder:
  "destructionOrder exampleEditor =
     [TimerStopped, Destroyed VisualizerTimerMember, Destroyed ResourcesDirMember, Destroyed WebViewPtr]
       @ map (\<lambda>a. Destroyed (AttachmentPtr a)) (rev attachmentMembers)
       @ map (\<lambda>m. Destroyed (RelayPtr m)) (rev relayMembers)"
  by (rule destructionOrder_eq)
     (simp_all add: exampleEditor_def constructedEditor_def constructedRelays_total
        constructedAttachments_total)

text \<open>The amended C4 at the example editor after a tick and a layout.\<close>

theorem view_released_before_attachments_before_relays_witness:
  "OxideAudioProcessorEditor exampleEnvironment exampleProcessor = Inr exampleEditor \<and>
   run exampleEnvironment [TimerTick, Resized] exampleEditor =
     Inr (resized (snd (timerCallback exampleEditor))) \<and>
   precedes (Destroyed WebViewPtr) (Destroyed (AttachmentPtr mixAttachment))
     (destructionOrder (resized (snd (timerCallback exampleEditor)))) \<and>
   precedes (Destroyed (AttachmentPtr mixAttachment)) (Destroyed (RelayPtr mixRelay))
     (destructionOrder (resized (snd (timerCallback exampleEditor))))"
proof -
  have r: "run exampleEnvironment [TimerTick, Resized] exampleEditor =
     Inr (resized (snd (timerCallback exampleEditor)))"
    by (simp add: run_def)
  from view_released_before_attachments_before_relays[OF example_constructs r] r example_constructs
  show ?thesis by blast
qed

text \<open>
  C4 as stated fails: destroying the example editor releases the browser view before any
  attachment and any relay; neither the relay nor the attachment of \<open>bitcrush\<close> is
  destroyed before the view.
\<close>

theorem relays_destroyed_after_browser_view:
  "OxideAudioProcessorEditor exampleEnvironment exampleProcessor = Inr exampleEditor \<and>
   destructionOrder exampleEditor =
     [TimerStopped, Destroyed VisualizerTimerMember, Destroyed ResourcesDirMember,
      Destroyed WebViewPtr,
      Destroyed (AttachmentPtr bypassAttachment), Destroyed (AttachmentPtr outputAttachment),
      Destroyed (AttachmentPtr mixAttachment), Destroyed (AttachmentPtr modeAttachment),
      Destroyed (AttachmentPtr filterDriveAttachment), Destroyed (AttachmentPtr filterResAttachment),
      Destroyed (AttachmentPtr filterCutoffAttachment), Destroyed (AttachmentPtr ageAttachment),
      Destroyed (AttachmentPtr saturationAttachment), Destroyed (AttachmentPtr dropoutAttachment),
      Destroyed (AttachmentPtr wobbleAttachment), Destroyed (AttachmentPtr crackleAttachment),
      Destroyed (AttachmentPtr noiseAttachment), Destroyed (AttachmentPtr downsampleAttachment),
      Destroyed (AttachmentPtr bitcrushAttachment),
      Destroyed (RelayPtr bypassRelay), Destroyed (RelayPtr outputRelay),
      Destroyed (RelayPtr mixRelay), Destroyed (RelayPtr modeRelay),
      Destroyed (RelayPtr filterDriveRelay), Destroyed (RelayPtr filterResRelay),
      Destroyed (RelayPtr filterCutoffRelay), Destroyed (RelayPtr ageRelay),
      Destroyed (RelayPtr saturationRelay), Destroyed (RelayPtr dropoutRelay),
      Destroyed (RelayPtr wobbleRelay), Destroyed (RelayPtr crackleRelay),
      Destroyed (RelayPtr noiseRelay), Destroyed (RelayPtr downsampleRelay),
      Destroyed (RelayPtr bitcrushRelay)] \<and>
   \<not> precedes (Destroyed (RelayPtr bitcrushRelay)) (Destroyed WebViewPtr)
       (destructionOrder exampleEditor) \<and>
   \<not> precedes (Destroyed (AttachmentPtr bitcrushAttachment)) (Destroyed WebViewPtr)
       (destructionOrder exampleEditor)"
  by (simp add: example_constructs example_destructionOrder precedes_def
        attachmentMembers_def relayMembers_def)

section \<open>The visualizer feed\<close>

lemma timerCallback_sample:
  "webView e = Some w \<Longrightarrow>
   timerCallback e =
     (Some (visualizerSample (processorRef e)),
      e\<lparr>webView := Some (emitEventIfBrowserIsVisible ''visualizerData''
                          (VObject (visualizerSample (processorRef e))) w)\<rparr>)"
  by (simp add: timerCallback_def visualizerSample_def Let_def)

lemma timerCallback_absent: "webView e = None \<Longrightarrow> timerCallback e = (None, e)"
  by (simp add: timerCallback_def)

text \<open>
  C1. On a timer tick, the seven metering values are sampled and exactly one
  \<open>visualizerData\<close> event carrying them is emitted if and only if the browser view
  exists and is visible. When the view is absent or hidden the tick leaves the editor as it
  was: no event is emitted and nothing is queued.
\<close>

theorem tick_emits_one_event_iff_view_visible:
  "((fst (timerCallback e) = Some (visualizerSample (processorRef e)) \<and>
     emitted (snd (timerCallback e)) =
       emitted e @ [(''visualizerData'', VObject (visualizerSample (processorRef e)))])
    = (\<exists>w. webView e = Some w \<and> browserVisible w)) \<and>
   (webView e = None \<or> (\<exists>w. webView e = Some w \<and> \<not> browserVisible w) \<longrightarrow>
      snd (timerCallback e) = e \<and> emitted (snd (timerCallback e)) = emitted e \<and>
      messageQueue (snd (timerCallback e)) = messageQueue e)"
proof (cases "webView e")
  case None
  then show ?thesis by (simp add: timerCallback_absent)
next
  case (Some w)
  show ?thesis
    by (cases "browserVisible w")
       (simp_all add: timerCallback_sample[OF Some] Some emitted_def emitEventIfBrowserIsVisible_def)
qed

text \<open>
  C1 at the example editor (visible view: one event with the seven values), at the same
  editor with its view hidden, and at an editor without a view.
\<close>

theorem tick_emits_one_event_iff_view_visible_witness:
  "fst (timerCallback exampleEditor) = Some (visualizerSample exampleProcessor) \<and>
   emitted (snd (timerCallback exampleEditor)) =
     [(''visualizerData'',
       VObject [(''rms'', VDouble 0.25), (''peak'', VDouble 0.5), (''wobblePhase'', VDouble 0),
                (''crackleActivity'', VDouble 0), (''mode'', VInt 2), (''bypassed'', VBool False),
                (''degradation'', VDouble 0.75)])] \<and>
   emitted hiddenEditor = [] \<and>
   snd (timerCallback hiddenEditor) = hiddenEditor \<and>
   emitted (snd (timerCallback hiddenEditor)) = [] \<and>
   webView (initialEditor exampleProcessor) = None \<and>
   snd (timerCallback (initialEditor exampleProcessor)) = initialEditor exampleProcessor"
proof -
  have v: "\<exists>w. webView exampleEditor = Some w \<and> browserVisible w"
    by (simp add: exampleEditor_def constructedEditor_def)
  have p: "processorRef exampleEditor = exampleProcessor" and e0: "emitted exampleEditor = []"
    by (simp_all add: exampleEditor_def constructedEditor_def emitted_def)
  have h: "\<exists>w. webView hiddenEditor = Some w \<and> \<not> browserVisible w" and eh: "emitted hiddenEditor = []"
    by (simp_all add: hiddenEditor_def exampleEditor_def constructedEditor_def emitted_def)
  have n: "webView (initialEditor exampleProcessor) = None"
    by (simp add: initialEditor_def)
  have s: "visualizerSample exampleProcessor =
     [(''rms'', VDouble 0.25), (''peak'', VDouble 0.5), (''wobblePhase'', VDouble 0),
                (''crackleActivity'', VDouble 0), (''mode'', VInt 2), (''bypassed'', VBool False),
                (''degradation'', VDouble 0.75)]"
    by (simp add: visualizerSample_def exampleProcessor_def)
  from tick_emits_one_event_iff_view_visible[of exampleEditor]
       tick_emits_one_event_iff_view_visible[of hiddenEditor]
       tick_emits_one_event_iff_view_visible[of "initialEditor exampleProcessor"]
       v p e0 h eh n s
  show ?thesis by simp
qed

text \<open>
  The sampling alone depends on the view existing, not on its being visible: the values of a
  hidden view are read and dropped.
\<close>

lemma tick_samples_iff_view_exists:
  "fst (timerCallback e) =
     (if webView e = None then None else Some (visualizerSample (processorRef e)))"
  by (cases "webView e") (simp_all add: timerCallback_absent timerCallback_sample)

section \<open>The activation bridge: claims\<close>

lemma constructed_listeners:
  assumes "OxideAudioProcessorEditor env p = Inr e0" and "run env acts e0 = Inr e"
  shows "\<exists>w. webView e = Some w \<and> eventListeners (options w) = constructedListeners env"
proof -
  have e0: "e0 = constructedEditor env p" by (rule constructor_Inr[OF assms(1)])
  have "bridge e = bridge e0" by (rule run_bridge[OF assms(2)])
  then show ?thesis by (auto simp: bridge_def e0 constructedEditor_def)
qed

lemma getActivationStatusListener_result:
  "webView e = Some w \<Longrightarrow>
   getActivationStatusListener env d e =
     Inr (e\<lparr>webView := Some (emitEventIfBrowserIsVisible ''activationState''
             (VObject [(''isConfigured'',
                        VBool (BEATCONNECT_ACTIVATION_ENABLED env \<and> hasActivationEnabled (processorRef e))),
                       (''isActivated'', VBool False)]) w)\<rparr>)"
  by (simp add: getActivationStatusListener_def webViewEmit_def Let_def)

text \<open>
  C7, as amended. In every state of a constructed editor, a \<open>getActivationStatus\<close>
  request is answered at once by the listener registered for it: the processor, the
  activation client and the calls made to it are unchanged, no message is posted, and
  one \<open>activationState\<close> event with the fields \<open>isConfigured\<close> and \<open>isActivated\<close>
  is emitted when the browser view is visible; when it is hidden nothing is emitted and
  the editor stays as it was.
\<close>

theorem getActivationStatus_emits_when_visible_and_starts_nothing:
  assumes "OxideAudioProcessorEditor env p = Inr e0" and "run env acts e0 = Inr e"
  shows "\<exists>w e'. webView e = Some w \<and>
           step env (BrowserEvent ''getActivationStatus'' d) e = Inr e' \<and>
           processorRef e' = processorRef e \<and> activationCalls e' = activationCalls e \<and>
           messageQueue e' = messageQueue e \<and>
           (if browserVisible w
            then \<exists>c a. emitted e' =
                   emitted e @ [(''activationState'',
                                 VObject [(''isConfigured'', VBool c), (''isActivated'', VBool a)])]
            else e' = e)"
proof -
  obtain w where w: "webView e = Some w" and l: "eventListeners (options w) = constructedListeners env"
    using constructed_listeners[OF assms] by blast
  have f: "map snd (filter (\<lambda>nl. fst nl = ''getActivationStatus'') (constructedListeners env)) =
           [GetActivationStatusListener]"
    by (simp add: constructedListeners_def)
  have s: "step env (BrowserEvent ''getActivationStatus'' d) e = getActivationStatusListener env d e"
    by (simp add: browserEvent_def w l f split: sum.splits)
  show ?thesis
    unfolding s getActivationStatusListener_result[OF w]
    by (cases "browserVisible w")
       (auto simp: w emitted_def emitEventIfBrowserIsVisible_def activationCalls_def)
qed

lemma hiddenEditor_eq:
  "hiddenEditor = exampleEditor\<lparr>webView := Some
      \<lparr>options = \<lparr>resourceProviderInstalled = True,
                    registeredRelays = relayRegistrations,
                    eventListeners = constructedListeners exampleEnvironment\<rparr>,
         browserVisible = False,
         currentURL = ''https://juce.backend/'',
         bounds = (0, 0),
         frontendEvents = []\<rparr>\<rparr>"
  by (simp add: hiddenEditor_def exampleEditor_def constructedEditor_def exampleEnvironment_def)

lemma hidden_reachable:
  "run exampleEnvironment [SetBrowserVisible False] exampleEditor = Inr hiddenEditor"
  by (simp add: run_def hiddenEditor_def)

text \<open>
  The amended C7 at the example editor, whose view is visible.
\<close>

theorem getActivationStatus_emits_when_visible_and_starts_nothing_witness:
  "OxideAudioProcessorEditor exampleEnvironment exampleProcessor = Inr exampleEditor \<and>
   run exampleEnvironment [] exampleEditor = Inr exampleEditor \<and>
   (\<exists>w e'. webView exampleEditor = Some w \<and> browserVisible w \<and>
           step exampleEnvironment (BrowserEvent ''getActivationStatus'' VVoid) exampleEditor = Inr e' \<and>
           processorRef e' = processorRef exampleEditor \<and>
           messageQueue e' = messageQueue exampleEditor \<and>
           (\<exists>c a. emitted e' =
                   emitted exampleEditor @ [(''activationState'',
                                 VObject [(''isConfigured'', VBool c), (''isActivated'', VBool a)])]))"
proof -
  have r: "run exampleEnvironment [] exampleEditor = Inr exampleEditor" by (simp add: run_def)
  have v: "\<And>w. webView exampleEditor = Some w \<Longrightarrow> browserVisible w"
    by (auto simp: exampleEditor_def constructedEditor_def)
  from getActivationStatus_emits_when_visible_and_starts_nothing[OF example_constructs r, of VVoid]
  obtain w e' where "webView exampleEditor = Some w"
     "step exampleEnvironment (BrowserEvent ''getActivationStatus'' VVoid) exampleEditor = Inr e'"
     "processorRef e' = processorRef exampleEditor" "messageQueue e' = messageQueue exampleEditor"
     "if browserVisible w
            then \<exists>c a. emitted e' =
                   emitted exampleEditor @ [(''activationState'',
                                 VObject [(''isConfigured'', VBool c), (''isActivated'', VBool a)])]
            else e' = exampleEditor"
    by blast
  then show ?thesis using v[of w] example_constructs r by auto
qed

text \<open>
  C7 as stated fails: with the view hidden by the host, handling \<open>getActivationStatus\<close>
  emits no event at all.
\<close>

theorem getActivationStatus_emits_nothing_when_hidden:
  "run exampleEnvironment [SetBrowserVisible False] exampleEditor = Inr hiddenEditor \<and>
   emitted hiddenEditor = [] \<and>
   step exampleEnvironment (BrowserEvent ''getActivationStatus'' VVoid) hiddenEditor = Inr hiddenEditor"
  by (simp add: hidden_reachable)
     (simp add: hiddenEditor_eq emitted_def browserEvent_def constructedListeners_def
        exampleEnvironment_def getActivationStatusListener_def webViewEmit_def
        emitEventIfBrowserIsVisible_def Let_def)

text \<open>
  What the registered listener reports and what \<open>handleGetActivationStatus\<close> would report,
  for an activated client: the listener's \<open>isActivated\<close> is the constant \<open>False\<close>.
\<close>

lemma getActivationStatus_reports_not_activated:
  "isActivated exampleActivation \<and>
   getActivation (processorRef exampleEditor) = Some exampleActivation \<and>
   map_sum id emitted
     (step exampleEnvironment (BrowserEvent ''getActivationStatus'' VVoid) exampleEditor) =
     Inr [(''activationState'',
           VObject [(''isConfigured'', VBool True), (''isActivated'', VBool False)])] \<and>
   map_sum id emitted (handleGetActivationStatus exampleEditor) =
     Inr [(''activationState'',
           VObject [(''isConfigured'', VBool True), (''isActivated'', VBool True),
                    (''info'', VObject (activationInfoObject exampleInfo))])]"
  by (simp add: exampleEditor_def constructedEditor_def exampleProcessor_def exampleActivation_def
        emitted_def browserEvent_def constructedListeners_def
        exampleEnvironment_def getActivationStatusListener_def webViewEmit_def
        handleGetActivationStatus_def sendActivationState_def
        emitEventIfBrowserIsVisible_def Let_def)

text \<open>
  Dispatching every posted message, one after the other, emits the event of each in the
  order of posting when the view is visible, and none when it is hidden.
\<close>

lemma runMessage_resultEvent:
  "runMessage env m e = webViewEmit (fst (resultEvent env m)) (snd (resultEvent env m)) e"
  by (cases m) (simp_all add: Let_def)

lemma dispatch_all:
  "webView e = Some w \<Longrightarrow> messageQueue e = q \<Longrightarrow>
   run env (replicate (length q) DispatchMessage) e =
     Inr (e\<lparr>messageQueue := [],
           webView := Some (w\<lparr>frontendEvents := frontendEvents w @
                               (if browserVisible w then map (resultEvent env) q else [])\<rparr>)\<rparr>)"
proof (induction q arbitrary: e w)
  case Nil
  then show ?case by (simp add: run_def)
next
  case (Cons m ms)
  let ?w1 = "emitEventIfBrowserIsVisible (fst (resultEvent env m)) (snd (resultEvent env m)) w"
  let ?e1 = "e\<lparr>messageQueue := ms, webView := Some ?w1\<rparr>"
  have s: "step env DispatchMessage e = Inr ?e1"
    using Cons.prems by (simp add: dispatchMessage_def runMessage_resultEvent webViewEmit_def)
  have "run env (replicate (length ms) DispatchMessage) ?e1 =
     Inr (?e1\<lparr>messageQueue := [],
           webView := Some (?w1\<lparr>frontendEvents := frontendEvents ?w1 @
                               (if browserVisible ?w1 then map (resultEvent env) ms else [])\<rparr>)\<rparr>)"
    by (rule Cons.IH) simp_all
  then show ?case
    using s by (simp add: run_def emitEventIfBrowserIsVisible_def)
qed

text \<open>
  C8, as amended. With an activation client, a request makes exactly one call of
  \<open>activate\<close> or \<open>deactivate\<close> and itself emits and posts nothing; when the call
  completes, with any status and in any state \<open>s\<close> of the editor (view visible or not),
  exactly one message is posted behind those already waiting and nothing else changes;
  and once the messages are dispatched each has emitted exactly one result event
  (\<open>activationResult\<close> with the status and, for \<open>Valid\<close>, the info;
  \<open>deactivationResult\<close> with the status) if the browser view is visible, and no event
  if it is hidden.
\<close>

theorem outcome_emits_one_result_event_when_view_visible:
  assumes "webView e = Some w" and "getActivation (processorRef e) = Some a"
  shows "(\<exists>e'. run env (ActivateCompleted status info
                         # replicate (Suc (length (messageQueue e))) DispatchMessage)
                 (handleActivateLicense env d e) = Inr e' \<and>
            activationCalls e' =
              calls a @ [Activate (toString (textOfOther env) (getProperty d ''code'' (VString [])))] \<and>
            messageQueue e' = [] \<and>
            emitted e' = emitted e @
              (if browserVisible w
               then map (resultEvent env) (messageQueue e) @
                    [(''activationResult'',
                      VObject ((''status'', VString (statusToString env status))
                               # (if status = Valid
                                  then [(''info'', VObject (activationInfoObject info))]
                                  else [])))]
               else [])) \<and>
         (\<exists>e'. run env (DeactivateCompleted status
                         # replicate (Suc (length (messageQueue e))) DispatchMessage)
                 (handleDeactivateLicense d e) = Inr e' \<and>
            activationCalls e' = calls a @ [Deactivate] \<and>
            messageQueue e' = [] \<and>
            emitted e' = emitted e @
              (if browserVisible w
               then map (resultEvent env) (messageQueue e) @
                    [(''deactivationResult'',
                      VObject [(''status'', VString (statusToString env status))])]
               else [])) \<and>
         activateCallback status info s =
           s\<lparr>messageQueue := messageQueue s @ [ActivationResultMessage status info]\<rparr> \<and>
         deactivateCallback status s =
           s\<lparr>messageQueue := messageQueue s @ [DeactivationResultMessage status]\<rparr> \<and>
         step env (ActivateCompleted status info) s = Inr (activateCallback status info s) \<and>
         step env (DeactivateCompleted status) s = Inr (deactivateCallback status s) \<and>
         messageQueue (handleActivateLicense env d e) = messageQueue e \<and>
         emitted (handleActivateLicense env d e) = emitted e \<and>
         messageQueue (handleDeactivateLicense d e) = messageQueue e \<and>
         emitted (handleDeactivateLicense d e) = emitted e"
proof -
  let ?n = "Suc (length (messageQueue e))"
  let ?ma = "ActivationResultMessage status info"
  let ?md = "DeactivationResultMessage status"
  let ?ea = "activateCallback status info (handleActivateLicense env d e)"
  let ?ed = "deactivateCallback status (handleDeactivateLicense d e)"
  have ra: "run env (ActivateCompleted status info # replicate ?n DispatchMessage)
              (handleActivateLicense env d e) = run env (replicate ?n DispatchMessage) ?ea"
    and rd: "run env (DeactivateCompleted status # replicate ?n DispatchMessage)
              (handleDeactivateLicense d e) = run env (replicate ?n DispatchMessage) ?ed"
    by (simp_all add: run_def)
  have wa: "webView ?ea = Some w" and qa: "messageQueue ?ea = messageQueue e @ [?ma]"
    and wd: "webView ?ed = Some w" and qd: "messageQueue ?ed = messageQueue e @ [?md]"
    using assms
    by (simp_all add: activateCallback_def deactivateCallback_def handleActivateLicense_def
          handleDeactivateLicense_def Let_def)
  have ca: "activationCalls ?ea =
              calls a @ [Activate (toString (textOfOther env) (getProperty d ''code'' (VString [])))]"
    and cd: "activationCalls ?ed = calls a @ [Deactivate]"
    using assms
    by (simp_all add: activateCallback_def deactivateCallback_def handleActivateLicense_def
          handleDeactivateLicense_def activationCalls_def Let_def)
  have n: "length (messageQueue e @ [m]) = ?n" for m :: Message by simp
  note da = dispatch_all[OF wa qa, of env, unfolded n]
  note dd = dispatch_all[OF wd qd, of env, unfolded n]
  have A: "\<exists>e'. run env (ActivateCompleted status info # replicate ?n DispatchMessage)
                 (handleActivateLicense env d e) = Inr e' \<and>
            activationCalls e' =
              calls a @ [Activate (toString (textOfOther env) (getProperty d ''code'' (VString [])))] \<and>
            messageQueue e' = [] \<and>
            emitted e' = emitted e @
              (if browserVisible w
               then map (resultEvent env) (messageQueue e) @
                    [(''activationResult'',
                      VObject ((''status'', VString (statusToString env status))
                               # (if status = Valid
                                  then [(''info'', VObject (activationInfoObject info))]
                                  else [])))]
               else [])"
    unfolding ra da using ca assms(1)
    by (simp add: emitted_def activationCalls_def)
  have B: "\<exists>e'. run env (DeactivateCompleted status # replicate ?n DispatchMessage)
                 (handleDeactivateLicense d e) = Inr e' \<and>
            activationCalls e' = calls a @ [Deactivate] \<and>
            messageQueue e' = [] \<and>
            emitted e' = emitted e @
              (if browserVisible w
               then map (resultEvent env) (messageQueue e) @
                    [(''deactivationResult'',
                      VObject [(''status'', VString (statusToString env status))])]
               else [])"
    unfolding rd dd using cd assms(1)
    by (simp add: emitted_def activationCalls_def)
  show ?thesis
    using assms
    by (intro conjI A B)
       (simp_all add: activateCallback_def deactivateCallback_def handleActivateLicense_def
          handleDeactivateLicense_def emitted_def Let_def)
qed

lemma example_facts:
  "webView exampleEditor = Some
      \<lparr>options = \<lparr>resourceProviderInstalled = True,
                    registeredRelays = relayRegistrations,
                    eventListeners = constructedListeners exampleEnvironment\<rparr>,
         browserVisible = True,
         currentURL = ''https://juce.backend/'',
         bounds = (0, 0),
         frontendEvents = []\<rparr>"
  "getActivation (processorRef exampleEditor) = Some exampleActivation"
  "messageQueue exampleEditor = []"
  "emitted exampleEditor = []"
  by (simp_all add: exampleEditor_def constructedEditor_def exampleEnvironment_def
        exampleProcessor_def emitted_def)

lemma example_environment_facts:
  "statusToString exampleEnvironment Valid = ''Valid''"
  "statusToString exampleEnvironment Invalid = ''Invalid''"
  "BEATCONNECT_ACTIVATION_ENABLED exampleEnvironment"
  by (simp_all add: exampleEnvironment_def)

text \<open>
  The amended C8 at the example editor: an invalid code, and a deactivation; and the
  message each completion posts when the view is hidden.
\<close>

theorem outcome_emits_one_result_event_when_view_visible_witness:
  "(\<exists>w. webView exampleEditor = Some w \<and> browserVisible w) \<and>
   getActivation (processorRef exampleEditor) = Some exampleActivation \<and>
   (\<exists>e'. run exampleEnvironment [ActivateCompleted Invalid exampleInfo, DispatchMessage]
            (handleActivateLicense exampleEnvironment (VObject [(''code'', VString ''BAD-CODE'')])
               exampleEditor) = Inr e' \<and>
         activationCalls e' = [Activate ''BAD-CODE''] \<and>
         emitted e' = [(''activationResult'', VObject [(''status'', VString ''Invalid'')])]) \<and>
   (\<exists>e'. run exampleEnvironment [DeactivateCompleted Valid, DispatchMessage]
            (handleDeactivateLicense VVoid exampleEditor) = Inr e' \<and>
         activationCalls e' = [Deactivate] \<and>
         emitted e' = [(''deactivationResult'', VObject [(''status'', VString ''Valid'')])]) \<and>
   messageQueue (activateCallback Invalid exampleInfo hiddenEditor) =
     [ActivationResultMessage Invalid exampleInfo] \<and>
   messageQueue (deactivateCallback Valid hiddenEditor) = [DeactivationResultMessage Valid]"
proof -
  note T1 = outcome_emits_one_result_event_when_view_visible
          [OF example_facts(1) example_facts(2),
           where env = exampleEnvironment and status = Invalid and info = exampleInfo
             and d = "VObject [(''code'', VString ''BAD-CODE'')]" and s = hiddenEditor]
  note T2 = outcome_emits_one_result_event_when_view_visible
          [OF example_facts(1) example_facts(2),
           where env = exampleEnvironment and status = Valid and info = exampleInfo
             and d = VVoid and s = hiddenEditor]
  have q: "messageQueue hiddenEditor = []"
    by (simp add: hiddenEditor_eq example_facts)
  have v: "\<exists>w. webView exampleEditor = Some w \<and> browserVisible w"
    by (simp add: example_facts)
  from T1 have a1: "\<exists>e'. run exampleEnvironment [ActivateCompleted Invalid exampleInfo, DispatchMessage]
            (handleActivateLicense exampleEnvironment (VObject [(''code'', VString ''BAD-CODE'')])
               exampleEditor) = Inr e' \<and>
         activationCalls e' = [Activate ''BAD-CODE''] \<and>
         emitted e' = [(''activationResult'', VObject [(''status'', VString ''Invalid'')])]"
    apply (simp add: example_facts example_environment_facts exampleActivation_def)
    apply blast
    done
  from T2 have a2: "\<exists>e'. run exampleEnvironment [DeactivateCompleted Valid, DispatchMessage]
            (handleDeactivateLicense VVoid exampleEditor) = Inr e' \<and>
         activationCalls e' = [Deactivate] \<and>
         emitted e' = [(''deactivationResult'', VObject [(''status'', VString ''Valid'')])]"
    apply (simp add: example_facts example_environment_facts exampleActivation_def)
    apply blast
    done
  from T1 have "activateCallback Invalid exampleInfo hiddenEditor =
      hiddenEditor\<lparr>messageQueue := messageQueue hiddenEditor @ [ActivationResultMessage Invalid exampleInfo]\<rparr>"
    by blast
  then have a3: "messageQueue (activateCallback Invalid exampleInfo hiddenEditor) =
     [ActivationResultMessage Invalid exampleInfo]"
    by (simp add: q)
  from T2 have "deactivateCallback Valid hiddenEditor =
      hiddenEditor\<lparr>messageQueue := messageQueue hiddenEditor @ [DeactivationResultMessage Valid]\<rparr>"
    by blast
  then have a4: "messageQueue (deactivateCallback Valid hiddenEditor) = [DeactivationResultMessage Valid]"
    by (simp add: q)
  from v example_facts(2) a1 a2 a3 a4 show ?thesis by blast
qed

text \<open>
  C8 as stated fails: with an activation client and a hidden view, a licence request makes
  its call, the call completes with a network error, the message is dispatched, and no
  event has been emitted.
\<close>

theorem hidden_view_drops_activation_outcome:
  "getActivation (processorRef hiddenEditor) = Some exampleActivation \<and>
   map_sum id activationCalls
     (run exampleEnvironment
        [BrowserEvent ''activateLicense'' (VObject [(''code'', VString ''K'')]),
         ActivateCompleted NetworkError exampleInfo, DispatchMessage] hiddenEditor) =
     Inr [Activate ''K''] \<and>
   map_sum id messageQueue
     (run exampleEnvironment
        [BrowserEvent ''activateLicense'' (VObject [(''code'', VString ''K'')]),
         ActivateCompleted NetworkError exampleInfo, DispatchMessage] hiddenEditor) = Inr [] \<and>
   map_sum id emitted
     (run exampleEnvironment
        [BrowserEvent ''activateLicense'' (VObject [(''code'', VString ''K'')]),
         ActivateCompleted NetworkError exampleInfo, DispatchMessage] hiddenEditor) = Inr []"
  by (simp add: hiddenEditor_eq example_facts run_def browserEvent_def constructedListeners_def
        exampleEnvironment_def exampleActivation_def
        handleActivateLicense_def activateCallback_def dispatchMessage_def webViewEmit_def
        emitEventIfBrowserIsVisible_def emitted_def activationCalls_def Let_def)

text \<open>
  C9. Without an activation client (a null handle), handling an \<open>activateLicense\<close>
  request, handling a \<open>deactivateLicense\<close> request and sending the activation state
  all return the editor unchanged: no call is made, no state changes, no event is emitted.
\<close>

theorem null_activation_handle_is_noop:
  assumes "getActivation (processorRef e) = None"
  shows "handleActivateLicense env d e = e \<and>
         handleDeactivateLicense d e = e \<and>
         sendActivationState e = Inr e \<and>
         handleGetActivationStatus e = Inr e \<and>
         invokeListener env ActivateLicenseListener d e = Inr e \<and>
         invokeListener env DeactivateLicenseListener d e = Inr e \<and>
         activationCalls e = []"
  using assms
  by (simp add: handleActivateLicense_def handleDeactivateLicense_def sendActivationState_def
        handleGetActivationStatus_def activationCalls_def)

lemma unlicensed_facts:
  "getActivation (processorRef unlicensedEditor) = None"
  "emitted unlicensedEditor = []"
  "messageQueue unlicensedEditor = []"
  by (simp_all add: unlicensedEditor_def constructedEditor_def emitted_def)

text \<open>
  C9 at the example editor over a processor without an activation client.
\<close>

theorem null_activation_handle_is_noop_witness:
  "getActivation (processorRef unlicensedEditor) = None \<and>
   handleActivateLicense exampleEnvironment (VObject [(''code'', VString ''K'')]) unlicensedEditor =
     unlicensedEditor \<and>
   handleDeactivateLicense VVoid unlicensedEditor = unlicensedEditor \<and>
   sendActivationState unlicensedEditor = Inr unlicensedEditor \<and>
   activationCalls unlicensedEditor = [] \<and>
   emitted unlicensedEditor = []"
  using null_activation_handle_is_noop
          [OF unlicensed_facts(1), of exampleEnvironment "VObject [(''code'', VString ''K'')]"]
        null_activation_handle_is_noop [OF unlicensed_facts(1), of exampleEnvironment VVoid]
        unlicensed_facts
  by simp

text \<open>
  C10, as amended. With an activation client, an \<open>activateLicense\<close> request whose
  payload has no property \<open>code\<close> (or is no object, or whose \<open>code\<close> is void) makes
  one call of \<open>activate\<close> with the empty string; the handler emits no event, posts
  no message and has no failure.
\<close>

theorem missing_code_activates_with_empty_string:
  assumes "getActivation (processorRef e) = Some a"
    and "\<not> hasProperty d ''code'' \<or> getProperty d ''code'' (VString []) = VVoid"
  shows "handleActivateLicense env d e =
           e\<lparr>processorRef := (processorRef e)
               \<lparr>getActivation := Some (a\<lparr>calls := calls a @ [Activate []]\<rparr>)\<rparr>\<rparr> \<and>
         activationCalls (handleActivateLicense env d e) = calls a @ [Activate []] \<and>
         emitted (handleActivateLicense env d e) = emitted e \<and>
         messageQueue (handleActivateLicense env d e) = messageQueue e \<and>
         invokeListener env ActivateLicenseListener d e = Inr (handleActivateLicense env d e)"
proof -
  have "toString (textOfOther env) (getProperty d ''code'' (VString [])) = []"
  proof (cases "hasProperty d ''code''")
    case True
    then show ?thesis using assms(2) by simp
  next
    case False
    then have "getProperty d ''code'' (VString []) = VString []"
      by (cases d) (auto simp: hasProperty_def split: option.splits)
    then show ?thesis by simp
  qed
  then show ?thesis using assms(1)
    by (simp add: handleActivateLicense_def activationCalls_def emitted_def)
qed

text \<open>
  The amended C10 at the example editor: a payload without \<open>code\<close>, and one whose
  \<open>code\<close> is void.
\<close>

theorem missing_code_activates_with_empty_string_witness:
  "getActivation (processorRef exampleEditor) = Some exampleActivation \<and>
   \<not> hasProperty (VObject [(''key'', VString ''K'')]) ''code'' \<and>
   activationCalls
     (handleActivateLicense exampleEnvironment (VObject [(''key'', VString ''K'')]) exampleEditor) =
     [Activate []] \<and>
   emitted
     (handleActivateLicense exampleEnvironment (VObject [(''key'', VString ''K'')]) exampleEditor) = [] \<and>
   hasProperty (VObject [(''code'', VVoid)]) ''code'' \<and>
   activationCalls
     (handleActivateLicense exampleEnvironment (VObject [(''code'', VVoid)]) exampleEditor) =
     [Activate []]"
proof -
  have h1: "\<not> hasProperty (VObject [(''key'', VString ''K'')]) ''code'' \<or>
            getProperty (VObject [(''key'', VString ''K'')]) ''code'' (VString []) = VVoid"
    by (simp add: hasProperty_def)
  have h2: "\<not> hasProperty (VObject [(''code'', VVoid)]) ''code'' \<or>
            getProperty (VObject [(''code'', VVoid)]) ''code'' (VString []) = VVoid"
    by simp
  from missing_code_activates_with_empty_string[OF example_facts(2) h1, of exampleEnvironment]
       missing_code_activates_with_empty_string[OF example_facts(2) h2, of exampleEnvironment]
  show ?thesis
    by (simp add: example_facts exampleActivation_def hasProperty_def emitted_def
          activationCalls_def)
qed

text \<open>
  C10 as stated fails: without an activation client, a request whose payload lacks
  \<open>code\<close> makes no call of \<open>activate\<close>.
\<close>

theorem activate_request_without_client_calls_nothing:
  "getActivation (processorRef unlicensedEditor) = None \<and>
   \<not> hasProperty (VObject []) ''code'' \<and>
   handleActivateLicense exampleEnvironment (VObject []) unlicensedEditor = unlicensedEditor \<and>
   activationCalls (handleActivateLicense exampleEnvironment (VObject []) unlicensedEditor) = []"
  by (simp add: unlicensed_facts handleActivateLicense_def activationCalls_def hasProperty_def)

end
